theory Spec2Isabelle
  imports Main "HOL-Library.List_Lexorder" "HOL-Library.Char_ord"
begin

section \<open>The PR agent (scripts/pr\_agent.py)\<close>

text \<open>
  The agent talks to a hosting platform over HTTP and decodes JSON payloads. The payloads
  are modelled at the schema the code reads them at: a field the code reads with
  \<^verbatim>\<open>.get\<close> is an optional field, \<open>None\<close> when the key is absent, and a field it
  indexes directly is a plain field. For \<^verbatim>\<open>status\<close>, \<^verbatim>\<open>conclusion\<close>,
  \<^verbatim>\<open>check_runs\<close> and \<^verbatim>\<open>merged\<close> a JSON null behaves as an absent key does; payloads
  outside the schema (a null in another field, a value of another JSON type) are not
  modelled. Strings are byte strings; the few non-ASCII characters of the source are
  written as their UTF-8 bytes.
\<close>

subsection \<open>Configuration and labels\<close>

definition API :: string where
  "API = ''https://api.github.com''"

definition BOT_COMMENT_MARKER :: string where
  "BOT_COMMENT_MARKER = ''<!-- pr-agent-bot -->''"

definition LABEL_PASSING :: string where
  "LABEL_PASSING = ''ci-passing''"

definition LABEL_FAILING :: string where
  "LABEL_FAILING = ''ci-failing''"

definition LABEL_NEEDS_REVIEW :: string where
  "LABEL_NEEDS_REVIEW = ''needs-review''"

definition LABEL_AUTO_MERGE :: string where
  "LABEL_AUTO_MERGE = ''auto-merge''"

definition CI_LABELS :: "string set" where
  "CI_LABELS = {LABEL_PASSING, LABEL_FAILING, LABEL_NEEDS_REVIEW}"

subsection \<open>Check runs and the CI state\<close>

text \<open>
  A check run as \<^verbatim>\<open>_ci_status\<close> reads it: \<^verbatim>\<open>r.get("status")\<close> and
  \<^verbatim>\<open>r.get("conclusion")\<close>.
\<close>

record check_run =
  status :: "string option"
  conclusion :: "string option"

text \<open>The three strings \<^verbatim>\<open>_ci_status\<close> returns, and their spelling.\<close>

datatype ci_state = Passing | Failing | Pending

fun ci_name :: "ci_state \<Rightarrow> string" where
  "ci_name Passing = ''passing''"
| "ci_name Failing = ''failing''"
| "ci_name Pending = ''pending''"

text \<open>
  Python truthiness of an optional string, as in \<^verbatim>\<open>if r.get("conclusion")\<close>:
  \<open>None\<close> and the empty string are false.
\<close>

fun truthy :: "string option \<Rightarrow> bool" where
  "truthy None = False"
| "truthy (Some s) = (s \<noteq> [])"

text \<open>
  Line 129: \<^verbatim>\<open>{r.get("conclusion") for r in runs if r.get("conclusion")}\<close>.
\<close>

fun kept_conclusion :: "check_run \<Rightarrow> string option" where
  "kept_conclusion r = (if truthy (conclusion r) then conclusion r else None)"

definition conclusions :: "check_run list \<Rightarrow> string set" where
  "conclusions runs = set (List.map_filter kept_conclusion runs)"

text \<open>Lines 124 to 136: the classification of a list of check runs.\<close>

definition classify :: "check_run list \<Rightarrow> ci_state" where
  "classify runs =
     (if runs = [] then Pending
      else if list_ex (\<lambda>r. status r \<noteq> Some ''completed'') runs then Pending
      else if conclusions runs = {} then Pending
      else if ''failure'' \<in> conclusions runs \<or> ''timed_out'' \<in> conclusions runs
              \<or> ''cancelled'' \<in> conclusions runs then Failing
      else if conclusions runs \<subseteq> {''success'', ''neutral'', ''skipped''} then Passing
      else Pending)"

subsection \<open>Python string helpers\<close>

text \<open>\<^verbatim>\<open>str(n)\<close> of an integer, as the f-strings of the source format one.\<close>

definition digit_char :: "nat \<Rightarrow> char" where
  "digit_char d = ''0123456789'' ! (d mod 10)"

function str_nat :: "nat \<Rightarrow> string" where
  "str_nat n = (if n < 10 then [digit_char n] else str_nat (n div 10) @ [digit_char (n mod 10)])"
  by pat_completeness auto
termination
  by (relation "measure id") auto

declare str_nat.simps [simp del]

definition str_int :: "int \<Rightarrow> string" where
  "str_int i = (if i < 0 then ''-'' @ str_nat (nat (- i)) else str_nat (nat i))"

definition nl :: string where
  "nl = [CHR 0x0A]"

text \<open>The substring test \<^verbatim>\<open>m in s\<close> on strings.\<close>

fun starts_with :: "string \<Rightarrow> string \<Rightarrow> bool" where
  "starts_with [] s = True"
| "starts_with (a # m) [] = False"
| "starts_with (a # m) (b # s) = (a = b \<and> starts_with m s)"

fun py_in :: "string \<Rightarrow> string \<Rightarrow> bool" where
  "py_in m [] = (m = [])"
| "py_in m (c # s) = (starts_with m (c # s) \<or> py_in m s)"

subsection \<open>Effects: requests, output and the platform\<close>

text \<open>
  A request body is a JSON document. What a run does is the list of its events, in order:
  the requests it sends (method, path below \<open>API\<close>, body) and the lines it prints to
  standard output and standard error.
\<close>

datatype json = JStr string | JArr "json list" | JObj "(string \<times> json) list"

datatype event = Call string string "json option" | Stdout string | Stderr string

text \<open>
  Lines 62 to 69, the \<^verbatim>\<open>try\<close> statement of \<^verbatim>\<open>_request\<close>. Its body
  (\<^verbatim>\<open>urlopen\<close>, \<^verbatim>\<open>read\<close>, \<^verbatim>\<open>json.loads\<close>) returns the decoded payload
  (\<open>None\<close> for an empty body), raises an \<^verbatim>\<open>HTTPError\<close>, or raises another exception
  (a \<^verbatim>\<open>URLError\<close>, a timeout, a decoding error), named here by a string. An
  \<^verbatim>\<open>HTTPError\<close> carries its status code and its body as
  \<^verbatim>\<open>raw.decode(errors='replace')\<close> gives it.
\<close>

datatype 'a urlopen = Returned "'a option" | RaisedHTTPError int string | RaisedOther string

text \<open>
  What the \<^verbatim>\<open>try\<close> statement leaves \<^verbatim>\<open>_request\<close> to work with: a payload or an
  \<^verbatim>\<open>HTTPError\<close> caught by the one \<^verbatim>\<open>except\<close> clause.
\<close>

datatype 'a http_result = Ok "'a option" | HTTPError int string

text \<open>
  The \<^verbatim>\<open>except\<close> clause names \<^verbatim>\<open>HTTPError\<close> only: any other exception leaves
  \<^verbatim>\<open>_request\<close> (\<open>Inl\<close>). No caller of \<^verbatim>\<open>_request\<close> has a handler, so such an
  exception ends the run; the call sites below are modelled for the requests that reach
  the rest of \<^verbatim>\<open>_request\<close> (\<open>Inr\<close>).
\<close>

fun request_try :: "'a urlopen \<Rightarrow> string + 'a http_result" where
  "request_try (Returned v) = Inr (Ok v)"
| "request_try (RaisedHTTPError code raw) = Inr (HTTPError code raw)"
| "request_try (RaisedOther e) = Inl e"

text \<open>
  A computation takes the platform's state and returns its value, its events and the
  platform's new state.
\<close>

type_synonym ('a, 'w) io = "'w \<Rightarrow> 'a \<times> event list \<times> 'w"

definition io_return :: "'a \<Rightarrow> ('a, 'w) io" where
  "io_return x w = (x, [], w)"

definition io_bind :: "('a, 'w) io \<Rightarrow> ('a \<Rightarrow> ('b, 'w) io) \<Rightarrow> ('b, 'w) io" where
  "io_bind m f w =
     (case m w of (a, es, w1) \<Rightarrow> (case f a w1 of (b, es', w2) \<Rightarrow> (b, es @ es', w2)))"

definition io_then :: "('a, 'w) io \<Rightarrow> ('b, 'w) io \<Rightarrow> ('b, 'w) io" where
  "io_then m k = io_bind m (\<lambda>_. k)"

definition print :: "string \<Rightarrow> (unit, 'w) io" where
  "print s w = ((), [Stdout s], w)"

definition eprint :: "string \<Rightarrow> (unit, 'w) io" where
  "eprint s w = ((), [Stderr s], w)"

fun for_each :: "'a list \<Rightarrow> ('a \<Rightarrow> (unit, 'w) io) \<Rightarrow> (unit, 'w) io" where
  "for_each [] f = io_return ()"
| "for_each (x # xs) f = io_then (f x) (for_each xs f)"

text \<open>The value, the events and the final state of a computation that has run.\<close>

definition events :: "'a \<times> event list \<times> 'w \<Rightarrow> event list" where
  "events r = fst (snd r)"

definition result :: "'a \<times> event list \<times> 'w \<Rightarrow> 'a" where
  "result r = fst r"

definition world :: "'a \<times> event list \<times> 'w \<Rightarrow> 'w" where
  "world r = snd (snd r)"

text \<open>The requests among the events of a run.\<close>

fun is_call :: "event \<Rightarrow> bool" where
  "is_call (Call m p b) = True"
| "is_call (Stdout s) = False"
| "is_call (Stderr s) = False"

definition calls_of :: "event list \<Rightarrow> event list" where
  "calls_of es = filter is_call es"

text \<open>The requests of one method.\<close>

fun method_is :: "string \<Rightarrow> event \<Rightarrow> bool" where
  "method_is m (Call m' p b) = (m = m')"
| "method_is m (Stdout s) = False"
| "method_is m (Stderr s) = False"

text \<open>The payloads, with the fields the code reads.\<close>

record check_runs_response =
  check_runs :: "check_run list option"

record comment =
  comment_id :: int
  body :: "string option"

record merge_response =
  merged :: "bool option"
  message :: "string option"

record pull_request =
  number :: int
  title :: string
  head_sha :: string
  labels :: "string list option"

text \<open>
  The configuration of the process: the two environment variables the module reads, and
  the slots of this process's hash tables (see \<open>visit\<close> below).
\<close>

record config =
  TOKEN :: string
  REPO :: string
  SLOT :: "string set \<Rightarrow> string \<Rightarrow> nat"

text \<open>
  The platform: one operation per endpoint the agent calls, each a state transformer on
  the platform's own state \<open>'w\<close> that answers with a payload or an HTTP error.
\<close>

record 'w platform =
  get_label :: "string \<Rightarrow> 'w \<Rightarrow> json http_result \<times> 'w"
  create_label :: "string \<Rightarrow> string \<Rightarrow> 'w \<Rightarrow> json http_result \<times> 'w"
  remove_label :: "int \<Rightarrow> string \<Rightarrow> 'w \<Rightarrow> json http_result \<times> 'w"
  add_labels :: "int \<Rightarrow> string list \<Rightarrow> 'w \<Rightarrow> json http_result \<times> 'w"
  get_check_runs :: "string \<Rightarrow> 'w \<Rightarrow> check_runs_response http_result \<times> 'w"
  list_comments :: "int \<Rightarrow> 'w \<Rightarrow> comment list http_result \<times> 'w"
  update_comment :: "int \<Rightarrow> string \<Rightarrow> 'w \<Rightarrow> json http_result \<times> 'w"
  create_comment :: "int \<Rightarrow> string \<Rightarrow> 'w \<Rightarrow> json http_result \<times> 'w"
  merge_pull :: "int \<Rightarrow> string \<Rightarrow> string \<Rightarrow> 'w \<Rightarrow> merge_response http_result \<times> 'w"
  list_pulls :: "int \<Rightarrow> 'w \<Rightarrow> pull_request list http_result \<times> 'w"

subsection \<open>HTTP helpers\<close>

text \<open>
  \<^verbatim>\<open>_request\<close>, for a request that returns or raises an \<^verbatim>\<open>HTTPError\<close>: the
  request is sent; an \<^verbatim>\<open>HTTPError\<close> is printed to standard error, with its code and
  its decoded body, and becomes \<open>None\<close>.
\<close>

definition request ::
  "string \<Rightarrow> string \<Rightarrow> json option \<Rightarrow> ('w \<Rightarrow> 'a http_result \<times> 'w) \<Rightarrow> ('a option, 'w) io" where
  "request method path rbody endpoint w =
     (case endpoint w of
        (Ok v, w') \<Rightarrow> (v, [Call method path rbody], w')
      | (HTTPError code raw, w') \<Rightarrow>
          (None,
           [Call method path rbody,
            Stderr (''  HTTP '' @ str_int code @ '' '' @ method @ '' '' @ API @ path @ '': '' @ raw)],
           w'))"

definition http_get :: "string \<Rightarrow> ('w \<Rightarrow> 'a http_result \<times> 'w) \<Rightarrow> ('a option, 'w) io" where
  "http_get path endpoint = request ''GET'' path None endpoint"

definition http_post ::
  "string \<Rightarrow> json \<Rightarrow> ('w \<Rightarrow> 'a http_result \<times> 'w) \<Rightarrow> ('a option, 'w) io" where
  "http_post path rbody endpoint = request ''POST'' path (Some rbody) endpoint"

definition http_patch ::
  "string \<Rightarrow> json \<Rightarrow> ('w \<Rightarrow> 'a http_result \<times> 'w) \<Rightarrow> ('a option, 'w) io" where
  "http_patch path rbody endpoint = request ''PATCH'' path (Some rbody) endpoint"

definition http_put ::
  "string \<Rightarrow> json \<Rightarrow> ('w \<Rightarrow> 'a http_result \<times> 'w) \<Rightarrow> ('a option, 'w) io" where
  "http_put path rbody endpoint = request ''PUT'' path (Some rbody) endpoint"

definition http_delete :: "string \<Rightarrow> ('w \<Rightarrow> 'a http_result \<times> 'w) \<Rightarrow> (unit, 'w) io" where
  "http_delete path endpoint = io_then (request ''DELETE'' path None endpoint) (io_return ())"

subsection \<open>Label helpers\<close>

definition ensure_label_exists :: "'w platform \<Rightarrow> config \<Rightarrow> string \<Rightarrow> string \<Rightarrow> (unit, 'w) io" where
  "ensure_label_exists P cfg label color =
     io_bind (http_get (''/repos/'' @ REPO cfg @ ''/labels/'' @ label) (get_label P label))
       (\<lambda>result.
          if result = None
          then io_then
                 (http_post (''/repos/'' @ REPO cfg @ ''/labels'')
                    (JObj [(''name'', JStr label), (''color'', JStr color)])
                    (create_label P label color))
                 (io_return ())
          else io_return ())"

text \<open>\<^verbatim>\<open>{lbl["name"] for lbl in pr.get("labels", [])}\<close>; the payload lists the names.\<close>

definition current_labels :: "pull_request \<Rightarrow> string set" where
  "current_labels pr = set (case labels pr of None \<Rightarrow> [] | Some ls \<Rightarrow> ls)"

text \<open>
  Line 107, \<^verbatim>\<open>existing & _CI_LABELS - {new_label}\<close>: in Python \<^verbatim>\<open>-\<close> binds tighter
  than \<^verbatim>\<open>&\<close>.
\<close>

definition stale_labels :: "string set \<Rightarrow> string \<Rightarrow> string set" where
  "stale_labels existing new_label = existing \<inter> (CI_LABELS - {new_label})"

text \<open>
  Line 108, \<^verbatim>\<open>for lbl in stale\<close>: Python visits the elements of a set in the order of
  their slots in the set's hash table, which depends on the hashes of this process and on
  the set. The model takes the slot of each element of each set from the configuration of
  the process and visits a set by increasing slot (elements given the same slot, by
  increasing string). Every order of a finite set is the order of some slots (lemma
  \<open>visit_any_order\<close> below), so nothing about the order is fixed.
\<close>

definition visit :: "config \<Rightarrow> string set \<Rightarrow> string list" where
  "visit cfg S = sort_key (SLOT cfg S) (sorted_list_of_set S)"

definition set_ci_label :: "'w platform \<Rightarrow> config \<Rightarrow> int \<Rightarrow> string set \<Rightarrow> string \<Rightarrow> (unit, 'w) io" where
  "set_ci_label P cfg pr_number existing new_label =
     io_then
       (for_each (visit cfg (stale_labels existing new_label))
          (\<lambda>lbl. http_delete
                    (''/repos/'' @ REPO cfg @ ''/issues/'' @ str_int pr_number @ ''/labels/'' @ lbl)
                    (remove_label P pr_number lbl)))
       (if new_label \<notin> existing
        then io_then
               (http_post (''/repos/'' @ REPO cfg @ ''/issues/'' @ str_int pr_number @ ''/labels'')
                  (JObj [(''labels'', JArr [JStr new_label])])
                  (add_labels P pr_number [new_label]))
               (io_return ())
        else io_return ())"

subsection \<open>CI status helpers\<close>

definition ci_status :: "'w platform \<Rightarrow> config \<Rightarrow> string \<Rightarrow> (ci_state, 'w) io" where
  "ci_status P cfg sha =
     io_bind
       (http_get (''/repos/'' @ REPO cfg @ ''/commits/'' @ sha @ ''/check-runs?per_page=100'')
          (get_check_runs P sha))
       (\<lambda>result.
          io_return
            (case result of
               None \<Rightarrow> Pending
             | Some d \<Rightarrow> classify (case check_runs d of None \<Rightarrow> [] | Some runs \<Rightarrow> runs)))"

subsection \<open>Comment helpers\<close>

text \<open>Line 148: \<^verbatim>\<open>_BOT_COMMENT_MARKER in c.get("body", "")\<close>.\<close>

definition has_marker :: "comment \<Rightarrow> bool" where
  "has_marker c = py_in BOT_COMMENT_MARKER (case body c of None \<Rightarrow> [] | Some b \<Rightarrow> b)"

text \<open>Lines 147 to 150: the id of the first comment whose body holds the marker.\<close>

fun first_marked :: "comment list \<Rightarrow> int option" where
  "first_marked [] = None"
| "first_marked (c # cs) = (if has_marker c then Some (comment_id c) else first_marked cs)"

definition bot_comment_id :: "'w platform \<Rightarrow> config \<Rightarrow> int \<Rightarrow> (int option, 'w) io" where
  "bot_comment_id P cfg pr_number =
     io_bind
       (http_get (''/repos/'' @ REPO cfg @ ''/issues/'' @ str_int pr_number @ ''/comments'')
          (list_comments P pr_number))
       (\<lambda>comments.
          io_return (case comments of None \<Rightarrow> None | Some cs \<Rightarrow> first_marked cs))"

text \<open>\<^verbatim>\<open>if comment_id:\<close> is false for \<open>None\<close> and for the id 0.\<close>

definition upsert_comment :: "'w platform \<Rightarrow> config \<Rightarrow> int \<Rightarrow> string \<Rightarrow> (unit, 'w) io" where
  "upsert_comment P cfg pr_number text =
     (let full_body = BOT_COMMENT_MARKER @ nl @ text;
          create = io_then
                     (http_post
                        (''/repos/'' @ REPO cfg @ ''/issues/'' @ str_int pr_number @ ''/comments'')
                        (JObj [(''body'', JStr full_body)])
                        (create_comment P pr_number full_body))
                     (io_return ())
      in io_bind (bot_comment_id P cfg pr_number)
           (\<lambda>cid.
              case cid of
                None \<Rightarrow> create
              | Some i \<Rightarrow>
                  if i \<noteq> 0
                  then io_then
                         (http_patch (''/repos/'' @ REPO cfg @ ''/issues/comments/'' @ str_int i)
                            (JObj [(''body'', JStr full_body)])
                            (update_comment P i full_body))
                         (io_return ())
                  else create))"

subsection \<open>Core PR handling\<close>

definition label_map :: "ci_state \<Rightarrow> string" where
  "label_map st =
     (case st of Passing \<Rightarrow> LABEL_PASSING | Failing \<Rightarrow> LABEL_FAILING | Pending \<Rightarrow> LABEL_NEEDS_REVIEW)"

text \<open>The icons are U+2705, U+274C and U+23F3.\<close>

definition status_icon :: "ci_state \<Rightarrow> string" where
  "status_icon st =
     (case st of
        Passing \<Rightarrow> [CHR 0xE2, CHR 0x9C, CHR 0x85]
      | Failing \<Rightarrow> [CHR 0xE2, CHR 0x9D, CHR 0x8C]
      | Pending \<Rightarrow> [CHR 0xE2, CHR 0x8F, CHR 0xB3])"

text \<open>Lines 186 to 195: the text of the status comment.\<close>

definition status_comment :: "int \<Rightarrow> string \<Rightarrow> ci_state \<Rightarrow> string \<Rightarrow> string" where
  "status_comment num sha st target_label =
     ''**Automated PR Status** '' @ status_icon st @ nl @ nl
     @ ''| Field | Value |'' @ nl
     @ ''|---|---|'' @ nl
     @ ''| PR | #'' @ str_int num @ '' |'' @ nl
     @ ''| Head SHA | `'' @ take 7 sha @ ''` |'' @ nl
     @ ''| CI Status | **'' @ ci_name st @ ''** |'' @ nl
     @ ''| Label applied | `'' @ target_label @ ''` |'' @ nl @ nl
     @ ''*Updated automatically by the PR agent.*''"

definition merge_commit_title :: "int \<Rightarrow> string \<Rightarrow> string" where
  "merge_commit_title num ttl = ''Auto-merge PR #'' @ str_int num @ '': '' @ ttl"

text \<open>
  Lines 199 to 208: the merge request and the report of its outcome. The line printed
  before the request ends in U+2026.
\<close>

definition auto_merge :: "'w platform \<Rightarrow> config \<Rightarrow> int \<Rightarrow> string \<Rightarrow> (unit, 'w) io" where
  "auto_merge P cfg num ttl =
     io_then
       (print (''    Auto-merging PR #'' @ str_int num @ '' (squash)'' @ [CHR 0xE2, CHR 0x80, CHR 0xA6]))
       (io_bind
          (http_put (''/repos/'' @ REPO cfg @ ''/pulls/'' @ str_int num @ ''/merge'')
             (JObj [(''merge_method'', JStr ''squash''),
                    (''commit_title'', JStr (merge_commit_title num ttl))])
             (merge_pull P num ''squash'' (merge_commit_title num ttl)))
          (\<lambda>merge_result.
             case merge_result of
               None \<Rightarrow> eprint (''    Auto-merge failed for PR #'' @ str_int num @ '': '' @ ''no response'')
             | Some r \<Rightarrow>
                 if merged r = Some True
                 then print (''    PR #'' @ str_int num @ '' merged successfully.'')
                 else eprint (''    Auto-merge failed for PR #'' @ str_int num @ '': ''
                              @ (case message r of None \<Rightarrow> ''unknown error'' | Some m \<Rightarrow> m))))"

definition handle_pr :: "'w platform \<Rightarrow> config \<Rightarrow> pull_request \<Rightarrow> (unit, 'w) io" where
  "handle_pr P cfg pr =
     (let current = current_labels pr in
      io_then (print (''  PR #'' @ str_int (number pr) @ '': '' @ title pr))
     (io_bind (ci_status P cfg (head_sha pr))
        (\<lambda>st.
      io_then (print (''    CI status: '' @ ci_name st))
     (io_then (set_ci_label P cfg (number pr) current (label_map st))
     (io_then (upsert_comment P cfg (number pr)
                 (status_comment (number pr) (head_sha pr) st (label_map st)))
       (if st = Passing \<and> LABEL_AUTO_MERGE \<in> current
        then auto_merge P cfg (number pr) (title pr)
        else io_return ()))))))"

subsection \<open>The run\<close>

datatype exit = Completed | SysExit int

text \<open>
  Lines 226 to 236: the pages of open pull requests are read until a page is short or a
  page is not a list. The loop need not end, so its result is optional: \<open>None\<close> is a loop
  that never ends. The pull requests read and the events so far are accumulated.
\<close>

partial_function (option) fetch_pulls ::
  "'w platform \<Rightarrow> config \<Rightarrow> int \<Rightarrow> pull_request list \<Rightarrow> event list \<Rightarrow> 'w
     \<Rightarrow> (pull_request list option \<times> event list \<times> 'w) option" where
  "fetch_pulls P cfg page prs es w =
     (case http_get
             (''/repos/'' @ REPO cfg @ ''/pulls?state=open&per_page=100&page='' @ str_int page)
             (list_pulls P page) w of
        (None, es1, w1) \<Rightarrow>
          Some (None, es @ es1 @ [Stderr ''Failed to fetch open PRs.''], w1)
      | (Some page_data, es1, w1) \<Rightarrow>
          if length page_data < 100 then Some (Some (prs @ page_data), es @ es1, w1)
          else fetch_pulls P cfg (page + 1) (prs @ page_data) (es @ es1) w1)"

declare fetch_pulls.simps [code]

text \<open>
  The outcome of the listing within \<open>k\<close> pages, read off the platform's answers: a page
  is not a list, a page is short, or neither has happened yet. It is the loop above with
  a bound on the pages, without the events.
\<close>

datatype listing = Unfinished | PageFailed | Listed "pull_request list"

fun pages :: "'w platform \<Rightarrow> config \<Rightarrow> int \<Rightarrow> pull_request list \<Rightarrow> 'w \<Rightarrow> nat \<Rightarrow> listing" where
  "pages P cfg page prs w 0 = Unfinished"
| "pages P cfg page prs w (Suc k) =
     (case http_get
             (''/repos/'' @ REPO cfg @ ''/pulls?state=open&per_page=100&page='' @ str_int page)
             (list_pulls P page) w of
        (None, es1, w1) \<Rightarrow> PageFailed
      | (Some page_data, es1, w1) \<Rightarrow>
          if length page_data < 100 then Listed (prs @ page_data)
          else pages P cfg (page + 1) (prs @ page_data) w1 k)"

text \<open>Lines 219 to 224: the banner and the provisioning of the three CI labels.\<close>

definition provision :: "'w platform \<Rightarrow> config \<Rightarrow> (unit, 'w) io" where
  "provision P cfg =
     io_then (print (''PR Agent running for '' @ REPO cfg))
    (io_then (ensure_label_exists P cfg LABEL_PASSING ''0e8a16'')
    (io_then (ensure_label_exists P cfg LABEL_FAILING ''d73a4a'')
             (ensure_label_exists P cfg LABEL_NEEDS_REVIEW ''e4e669'')))"

text \<open>Lines 238 to 242: every pull request read is handled, in order.\<close>

definition handle_all :: "'w platform \<Rightarrow> config \<Rightarrow> pull_request list \<Rightarrow> (unit, 'w) io" where
  "handle_all P cfg prs =
     io_then (print (''Found '' @ str_nat (length prs) @ '' open PR(s).''))
    (io_then (for_each prs (handle_pr P cfg))
             (print ''PR Agent done.''))"

text \<open>
  \<^verbatim>\<open>main\<close>: \<^verbatim>\<open>sys.exit(1)\<close> ends the run at once; the two messages of the
  configuration checks hold U+2014.
\<close>

definition main :: "'w platform \<Rightarrow> config \<Rightarrow> 'w \<Rightarrow> (exit \<times> event list \<times> 'w) option" where
  "main P cfg w =
     (if TOKEN cfg = [] then
        Some (SysExit 1,
              [Stderr (''GITHUB_TOKEN is not set '' @ [CHR 0xE2, CHR 0x80, CHR 0x94] @ '' aborting.'')], w)
      else if REPO cfg = [] then
        Some (SysExit 1,
              [Stderr (''GITHUB_REPOSITORY is not set '' @ [CHR 0xE2, CHR 0x80, CHR 0x94] @ '' aborting.'')], w)
      else
        (case fetch_pulls P cfg 1 [] (events (provision P cfg w)) (world (provision P cfg w)) of
           None \<Rightarrow> None
         | Some (None, es1, w1) \<Rightarrow> Some (SysExit 1, es1, w1)
         | Some (Some prs, es1, w1) \<Rightarrow>
             Some (Completed, es1 @ events (handle_all P cfg prs w1), world (handle_all P cfg prs w1))))"

subsection \<open>A platform that stores labels and comments\<close>

text \<open>
  The contract of the label and comment endpoints, as an in-memory platform. Removing and
  adding labels acts on the label set of the issue. The comments of the repository are kept
  in the order of their creation, each with the number of its issue and its body; the id
  of a comment is its position, counted from 1, so ids are positive and no two comments
  share one. The listing of an issue is complete, an update replaces the body of the
  comment with the given id (an unknown id is answered with 404), and a created comment is
  appended. The other endpoints answer with an empty body and change nothing.
\<close>

record store =
  issue_labels :: "int \<Rightarrow> string set"
  comments :: "(int \<times> string option) list"

fun listing_from :: "int \<Rightarrow> int \<Rightarrow> (int \<times> string option) list \<Rightarrow> comment list" where
  "listing_from i n [] = []"
| "listing_from i n ((m, b) # cs) =
     (if m = n then \<lparr>comment_id = i, body = b\<rparr> # listing_from (i + 1) n cs
      else listing_from (i + 1) n cs)"

definition issue_comments :: "store \<Rightarrow> int \<Rightarrow> comment list" where
  "issue_comments w n = listing_from 1 n (comments w)"

definition set_body :: "int \<Rightarrow> string \<Rightarrow> comment \<Rightarrow> comment" where
  "set_body i b c = (if comment_id c = i then c\<lparr>body := Some b\<rparr> else c)"

definition store_platform :: "store platform" where
  "store_platform =
     \<lparr> get_label = (\<lambda>l w. (Ok None, w)),
       create_label = (\<lambda>l c w. (Ok None, w)),
       remove_label = (\<lambda>n l w. (Ok None, w\<lparr>issue_labels := (issue_labels w)(n := issue_labels w n - {l})\<rparr>)),
       add_labels = (\<lambda>n ls w. (Ok None, w\<lparr>issue_labels := (issue_labels w)(n := issue_labels w n \<union> set ls)\<rparr>)),
       get_check_runs = (\<lambda>sha w. (Ok None, w)),
       list_comments = (\<lambda>n w. (Ok (Some (issue_comments w n)), w)),
       update_comment = (\<lambda>i b w.
         if 1 \<le> i \<and> i \<le> int (length (comments w))
         then (Ok None,
               w\<lparr>comments := (comments w)[nat (i - 1) := (fst (comments w ! nat (i - 1)), Some b)]\<rparr>)
         else (HTTPError 404 ''Not Found'', w)),
       create_comment = (\<lambda>n b w. (Ok None, w\<lparr>comments := comments w @ [(n, Some b)]\<rparr>)),
       merge_pull = (\<lambda>n m t w. (Ok None, w)),
       list_pulls = (\<lambda>p w. (Ok None, w)) \<rparr>"

text \<open>The same platform, but every update and creation of a comment is refused.\<close>

definition refusing_platform :: "store platform" where
  "refusing_platform =
     store_platform
       \<lparr> update_comment := (\<lambda>i b w. (HTTPError 403 ''Forbidden'', w)),
         create_comment := (\<lambda>n b w. (HTTPError 403 ''Forbidden'', w)) \<rparr>"

text \<open>A platform without state whose endpoints give fixed answers.\<close>

definition fixed_platform ::
  "check_runs_response http_result \<Rightarrow> comment list http_result \<Rightarrow> merge_response http_result
     \<Rightarrow> pull_request list http_result \<Rightarrow> json http_result \<Rightarrow> unit platform" where
  "fixed_platform runs_reply comments_reply merge_reply pulls_reply other_reply =
     \<lparr> get_label = (\<lambda>l w. (other_reply, w)),
       create_label = (\<lambda>l c w. (other_reply, w)),
       remove_label = (\<lambda>n l w. (other_reply, w)),
       add_labels = (\<lambda>n ls w. (other_reply, w)),
       get_check_runs = (\<lambda>sha w. (runs_reply, w)),
       list_comments = (\<lambda>n w. (comments_reply, w)),
       update_comment = (\<lambda>i b w. (other_reply, w)),
       create_comment = (\<lambda>n b w. (other_reply, w)),
       merge_pull = (\<lambda>n m t w. (merge_reply, w)),
       list_pulls = (\<lambda>p w. (pulls_reply, w)) \<rparr>"

subsection \<open>Example states\<close>

text \<open>A configuration whose sets hold \<^verbatim>\<open>needs-review\<close> in their first slot.\<close>

definition example_config :: config where
  "example_config =
     \<lparr>TOKEN = ''t'', REPO = ''o/r'', SLOT = (\<lambda>S l. if l = ''needs-review'' then 0 else 1)\<rparr>"

definition example_pull :: pull_request where
  "example_pull =
     \<lparr>number = 7, title = ''Fix parser'', head_sha = ''0123456789abcdef'',
      labels = Some [''ci-failing'', ''auto-merge'']\<rparr>"

text \<open>Every call fails with an HTTP error, except the list of open pull requests.\<close>

definition failing_platform :: "unit platform" where
  "failing_platform =
     fixed_platform (HTTPError 500 ''down'') (HTTPError 500 ''down'') (HTTPError 500 ''down'')
       (Ok (Some [example_pull])) (HTTPError 500 ''down'')"

text \<open>Only the list of open pull requests fails.\<close>

definition no_pulls_platform :: "unit platform" where
  "no_pulls_platform =
     fixed_platform (Ok None) (Ok None) (Ok None) (HTTPError 502 ''bad gateway'') (Ok None)"

text \<open>
  Issue 7 carries a stale CI label and the control label; of its two comments the second
  is the agent's.
\<close>

definition marked_once :: store where
  "marked_once =
     \<lparr>issue_labels = (\<lambda>n. {''ci-failing'', ''auto-merge''}),
      comments = [(7, Some ''looks good''), (7, Some ''<!-- pr-agent-bot --> old'')]\<rparr>"

text \<open>
  Two comments of issue 7 hold the marker: the agent's, and a later one that quotes it.
\<close>

definition marked_twice :: store where
  "marked_twice =
     \<lparr>issue_labels = (\<lambda>n. {}),
      comments = [(7, Some ''<!-- pr-agent-bot --> old''), (3, Some ''unrelated''),
                  (7, Some ''> <!-- pr-agent-bot --> quoted'')]\<rparr>"

subsection \<open>The classification rules as the specification words them\<close>

text \<open>
  The ordered rules of the specification's classifier, over a set \<open>cs\<close> of collected
  conclusions: no run, a run that is not completed, no conclusion, a hard failure, all
  conclusions good, anything else.
\<close>

definition spec_rules :: "check_run list \<Rightarrow> string set \<Rightarrow> ci_state" where
  "spec_rules runs cs =
     (if runs = [] then Pending
      else if (\<exists>r \<in> set runs. status r \<noteq> Some ''completed'') then Pending
      else if cs = {} then Pending
      else if cs \<inter> {''failure'', ''timed_out'', ''cancelled''} \<noteq> {} then Failing
      else if cs \<subseteq> {''success'', ''neutral'', ''skipped''} then Passing
      else Pending)"

text \<open>The conclusions of the runs, discarding the absent (null) ones only.\<close>

definition nonnull_conclusions :: "check_run list \<Rightarrow> string set" where
  "nonnull_conclusions runs = set (List.map_filter conclusion runs)"

text \<open>A run whose conclusion is the empty string, with the conclusion taken away.\<close>

definition null_conclusion :: "check_run \<Rightarrow> check_run" where
  "null_conclusion r = (if conclusion r = Some [] then r\<lparr>conclusion := None\<rparr> else r)"

section \<open>Properties\<close>

subsection \<open>Events, results and states of composed computations\<close>

lemma events_return [simp]: "events (io_return x w) = []"
  and result_return [simp]: "result (io_return x w) = x"
  and world_return [simp]: "world (io_return x w) = w"
  by (simp_all add: events_def result_def world_def io_return_def)

lemma events_bind [simp]:
  "events (io_bind m f w) = events (m w) @ events (f (result (m w)) (world (m w)))"
  by (simp add: events_def result_def world_def io_bind_def split: prod.splits)

lemma result_bind [simp]: "result (io_bind m f w) = result (f (result (m w)) (world (m w)))"
  by (simp add: events_def result_def world_def io_bind_def split: prod.splits)

lemma world_bind [simp]: "world (io_bind m f w) = world (f (result (m w)) (world (m w)))"
  by (simp add: events_def result_def world_def io_bind_def split: prod.splits)

lemma events_then [simp]: "events (io_then m k w) = events (m w) @ events (k (world (m w)))"
  and result_then [simp]: "result (io_then m k w) = result (k (world (m w)))"
  and world_then [simp]: "world (io_then m k w) = world (k (world (m w)))"
  by (simp_all add: io_then_def)

lemma events_print [simp]: "events (print s w) = [Stdout s]"
  and world_print [simp]: "world (print s w) = w"
  and events_eprint [simp]: "events (eprint s w) = [Stderr s]"
  and world_eprint [simp]: "world (eprint s w) = w"
  by (simp_all add: events_def world_def print_def eprint_def)

lemma calls_of_append [simp]: "calls_of (xs @ ys) = calls_of xs @ calls_of ys"
  and calls_of_Nil [simp]: "calls_of [] = []"
  by (simp_all add: calls_of_def)

lemma calls_of_request [simp]: "calls_of (events (request m p b ep w)) = [Call m p b]"
  by (simp add: calls_of_def events_def request_def split: prod.splits http_result.splits)

lemma world_request: "world (request m p b ep w) = snd (ep w)"
  by (simp add: world_def request_def split: prod.splits http_result.splits)

lemma result_request:
  "result (request m p b ep w) = (case fst (ep w) of Ok v \<Rightarrow> v | HTTPError c r \<Rightarrow> None)"
  by (simp add: result_def request_def split: prod.splits http_result.splits)

lemma calls_of_delete [simp]: "calls_of (events (http_delete p ep w)) = [Call ''DELETE'' p None]"
  by (simp add: http_delete_def)

lemma calls_of_for_each:
  assumes "\<And>x w. calls_of (events (f x w)) = [c x]"
  shows "calls_of (events (for_each xs f w)) = map c xs"
  using assms by (induction xs arbitrary: w) simp_all

subsection \<open>The classifier\<close>

lemma conclusions_iff:
  "c \<in> conclusions runs \<longleftrightarrow> c \<noteq> [] \<and> (\<exists>r \<in> set runs. conclusion r = Some c)"
  by (induction runs) (auto simp: conclusions_def List.map_filter_simps split: option.splits)

lemma nonnull_conclusions_iff:
  "c \<in> nonnull_conclusions runs \<longleftrightarrow> (\<exists>r \<in> set runs. conclusion r = Some c)"
  by (induction runs) (auto simp: nonnull_conclusions_def List.map_filter_simps split: option.splits)

lemma conclusions_eq: "conclusions runs = nonnull_conclusions runs - {[]}"
  by (auto simp: conclusions_iff nonnull_conclusions_iff)

lemma classify_spec_rules: "classify runs = spec_rules runs (conclusions runs)"
  by (auto simp: classify_def spec_rules_def list_ex_iff)

text \<open>
  C1, as stated: the classifier follows the ordered rules over the set of conclusions from
  which only the absent ones are discarded. It does not: a completed run whose conclusion
  is the empty string is discarded too, so a successful run beside such a run is
  \<open>passing\<close>, where the stated rules give \<open>pending\<close>.
\<close>

theorem classify_keeps_empty_conclusion_counterexample:
  "classify [\<lparr>status = Some ''completed'', conclusion = Some ''success''\<rparr>,
             \<lparr>status = Some ''completed'', conclusion = Some ''''\<rparr>]
   \<noteq> spec_rules [\<lparr>status = Some ''completed'', conclusion = Some ''success''\<rparr>,
                  \<lparr>status = Some ''completed'', conclusion = Some ''''\<rparr>]
        (nonnull_conclusions [\<lparr>status = Some ''completed'', conclusion = Some ''success''\<rparr>,
                              \<lparr>status = Some ''completed'', conclusion = Some ''''\<rparr>])"
  by (simp add: classify_def conclusions_def spec_rules_def nonnull_conclusions_def
      List.map_filter_simps)

text \<open>
  C1, amended: for every list of check runs the classifier follows the ordered rules over
  the set of conclusions from which the absent and the empty ones are discarded.
\<close>

theorem classify_follows_rules:
  "classify runs = spec_rules runs (nonnull_conclusions runs - {''''})"
  by (simp add: classify_spec_rules conclusions_eq)

lemma conclusions_null_conclusion: "conclusions (map null_conclusion runs) = conclusions runs"
  by (induction runs)
     (auto simp: conclusions_def null_conclusion_def List.map_filter_simps split: option.splits)

lemma status_null_conclusion: "status (null_conclusion r) = status r"
  by (simp add: null_conclusion_def)

text \<open>
  C10: a run whose conclusion is the empty string is classified as if it had no
  conclusion: taking the empty conclusions away does not change the class of any list,
  the empty string is never in the conclusion set, and a successful run beside a run
  with the empty conclusion is \<open>passing\<close>.
\<close>

theorem empty_conclusion_discarded:
  "classify (map null_conclusion runs) = classify runs
   \<and> '''' \<notin> conclusions runs
   \<and> classify [\<lparr>status = Some ''completed'', conclusion = Some ''success''\<rparr>,
               \<lparr>status = Some ''completed'', conclusion = Some ''''\<rparr>] = Passing"
proof (intro conjI)
  show "classify (map null_conclusion runs) = classify runs"
    by (simp add: classify_def conclusions_null_conclusion list_ex_iff status_null_conclusion)
  show "'''' \<notin> conclusions runs"
    by (simp add: conclusions_iff)
  show "classify [\<lparr>status = Some ''completed'', conclusion = Some ''success''\<rparr>,
                  \<lparr>status = Some ''completed'', conclusion = Some ''''\<rparr>] = Passing"
    by (simp add: classify_def conclusions_def List.map_filter_simps)
qed

subsection \<open>The label reconciler\<close>

lemma finite_CI_LABELS: "finite CI_LABELS"
  by (simp add: CI_LABELS_def)

lemma finite_stale_labels: "finite (stale_labels existing t)"
  by (simp add: stale_labels_def finite_CI_LABELS)

text \<open>The visit of a finite set lists each element once; any order can occur.\<close>

lemma set_visit: "finite S \<Longrightarrow> set (visit cfg S) = S"
  by (simp add: visit_def)

lemma distinct_visit: "distinct (visit cfg S)"
  by (simp add: visit_def)

lemma visit_empty: "visit cfg {} = []"
  by (simp add: visit_def)

lemma takeWhile_index_inj:
  assumes "x \<in> set xs" and "y \<in> set xs"
    and "length (takeWhile (\<lambda>z. z \<noteq> x) xs) = length (takeWhile (\<lambda>z. z \<noteq> y) xs)"
  shows "x = y"
  using assms by (induction xs) (auto split: if_splits)

lemma sorted_index_map:
  "distinct xs \<Longrightarrow> map (\<lambda>x. length (takeWhile (\<lambda>z. z \<noteq> x) xs)) xs = [0..<length xs]"
proof (induction xs)
  case Nil
  show ?case by simp
next
  case (Cons a xs)
  then have "map (\<lambda>x. length (takeWhile (\<lambda>z. z \<noteq> x) (a # xs))) xs
             = map (\<lambda>x. Suc (length (takeWhile (\<lambda>z. z \<noteq> x) xs))) xs"
    by auto
  also have "\<dots> = map Suc (map (\<lambda>x. length (takeWhile (\<lambda>z. z \<noteq> x) xs)) xs)"
    by simp
  also have "\<dots> = map Suc [0..<length xs]"
    using Cons by simp
  finally show ?case
    by (simp add: map_Suc_upt upt_conv_Cons del: upt_Suc)
qed

lemma visit_any_order:
  assumes "distinct xs"
  shows "visit (cfg\<lparr>SLOT := \<lambda>S x. length (takeWhile (\<lambda>z. z \<noteq> x) xs)\<rparr>) (set xs) = xs"
proof -
  let ?f = "\<lambda>x. length (takeWhile (\<lambda>z. z \<noteq> x) xs)"
  let ?ys = "sort_key ?f (sorted_list_of_set (set xs))"
  have "inj_on ?f (set ?ys \<union> set xs)"
    by (auto intro!: inj_onI dest: takeWhile_index_inj)
  moreover have "sorted (map ?f ?ys)" by simp
  moreover have "distinct (map ?f ?ys)"
    by (auto simp: distinct_map intro!: inj_onI dest: takeWhile_index_inj)
  moreover have "sorted (map ?f xs)" "distinct (map ?f xs)"
    using assms by (simp_all add: sorted_index_map)
  moreover have "set ?ys = set xs" by simp
  ultimately have "?ys = xs"
    by (rule map_sorted_distinct_set_unique)
  then show ?thesis
    by (simp add: visit_def)
qed

lemma stale_labels_eq: "stale_labels existing t = (existing \<inter> CI_LABELS) - {t}"
  by (auto simp: stale_labels_def)

lemma set_ci_label_calls:
  "calls_of (events (set_ci_label P cfg n existing t w)) =
     map (\<lambda>l. Call ''DELETE'' (''/repos/'' @ REPO cfg @ ''/issues/'' @ str_int n @ ''/labels/'' @ l) None)
         (visit cfg (stale_labels existing t))
     @ (if t \<in> existing then []
        else [Call ''POST'' (''/repos/'' @ REPO cfg @ ''/issues/'' @ str_int n @ ''/labels'')
                (Some (JObj [(''labels'', JArr [JStr t])]))])"
  by (simp add: set_ci_label_def calls_of_for_each http_post_def)

text \<open>
  C3: whatever the platform answers, the requests of the reconciler are one removal for
  each label of \<open>(existing \<inter> CI_LABELS) - {t}\<close>, each label once and in the order in which
  the process visits the set, and then, when the target is not among the existing labels,
  one addition of the target; no other request is sent.
\<close>

theorem set_ci_label_requests:
  "\<exists>xs. set xs = (existing \<inter> CI_LABELS) - {t} \<and> distinct xs
      \<and> calls_of (events (set_ci_label P cfg n existing t w)) =
          map (\<lambda>l. Call ''DELETE'' (''/repos/'' @ REPO cfg @ ''/issues/'' @ str_int n @ ''/labels/'' @ l) None) xs
          @ (if t \<in> existing then []
             else [Call ''POST'' (''/repos/'' @ REPO cfg @ ''/issues/'' @ str_int n @ ''/labels'')
                     (Some (JObj [(''labels'', JArr [JStr t])]))])"
proof -
  have "set (visit cfg (stale_labels existing t)) = stale_labels existing t"
    by (simp add: set_visit finite_stale_labels)
  then have "set (visit cfg (stale_labels existing t)) = (existing \<inter> CI_LABELS) - {t}"
    by (simp only: stale_labels_eq)
  moreover have "distinct (visit cfg (stale_labels existing t))"
    by (rule distinct_visit)
  ultimately show ?thesis
    using set_ci_label_calls [of P cfg n existing t w] by (intro exI conjI)
qed

lemma events_set_ci_label_settled:
  assumes "stale_labels L t = {}" and "t \<in> L"
  shows "events (set_ci_label P cfg n L t w) = []"
  using assms by (simp add: set_ci_label_def visit_empty)

text \<open>The label set of an issue on the storing platform, after the reconciler has run.\<close>

lemma world_delete_store:
  "world (http_delete p (remove_label store_platform n l) w) =
     w\<lparr>issue_labels := (issue_labels w)(n := issue_labels w n - {l})\<rparr>"
  by (simp add: http_delete_def world_request store_platform_def)

lemma labels_remove_all_store:
  "issue_labels (world (for_each xs (\<lambda>l. http_delete (p l) (remove_label store_platform n l)) w)) m =
     (if m = n then issue_labels w n - set xs else issue_labels w m)"
proof (induction xs arbitrary: w)
  case Nil
  show ?case by simp
next
  case (Cons x xs)
  show ?case
    by (auto simp: Cons.IH world_delete_store)
qed

lemma world_add_store:
  "world (http_post p b (add_labels store_platform n ls) w) =
     w\<lparr>issue_labels := (issue_labels w)(n := issue_labels w n \<union> set ls)\<rparr>"
  by (simp add: http_post_def world_request store_platform_def)

lemma labels_after_set_ci_label:
  "issue_labels (world (set_ci_label store_platform cfg n existing t w)) n =
     (issue_labels w n - stale_labels existing t) \<union> (if t \<in> existing then {} else {t})"
  by (simp add: set_ci_label_def labels_remove_all_store world_add_store finite_stale_labels
      set_visit)

text \<open>
  C4: on the storing platform, when the reconciler is given the label set of the issue
  and a target among the three CI labels, the CI labels on the issue afterwards are the
  target and nothing else.
\<close>

theorem ci_label_exclusive:
  assumes "t \<in> CI_LABELS"
  shows "issue_labels (world (set_ci_label store_platform cfg n (issue_labels w n) t w)) n
           \<inter> CI_LABELS = {t}
         \<and> card (issue_labels (world (set_ci_label store_platform cfg n (issue_labels w n) t w)) n
                   \<inter> CI_LABELS) = 1"
proof -
  have "issue_labels (world (set_ci_label store_platform cfg n (issue_labels w n) t w)) n
          \<inter> CI_LABELS = {t}"
    using assms by (auto simp: labels_after_set_ci_label stale_labels_def split: if_splits)
  then show ?thesis by simp
qed

theorem ci_label_exclusive_witness:
  "''ci-passing'' \<in> CI_LABELS
   \<and> issue_labels (world (set_ci_label store_platform example_config 7
                            (issue_labels marked_once 7) ''ci-passing'' marked_once)) 7
       \<inter> CI_LABELS = {''ci-passing''}"
  using ci_label_exclusive [of "''ci-passing''" example_config 7 marked_once]
  by (simp add: CI_LABELS_def LABEL_PASSING_def)

text \<open>
  C7: on the storing platform, after the reconciler has run on the label set of the
  issue, a second run on the resulting label set with the same target sends no request:
  no label is stale and the target is present.
\<close>

theorem set_ci_label_idempotent:
  "events (set_ci_label store_platform cfg n
             (issue_labels (world (set_ci_label store_platform cfg n (issue_labels w n) t w)) n) t
             (world (set_ci_label store_platform cfg n (issue_labels w n) t w))) = []
   \<and> stale_labels (issue_labels (world (set_ci_label store_platform cfg n (issue_labels w n) t w)) n) t = {}
   \<and> t \<in> issue_labels (world (set_ci_label store_platform cfg n (issue_labels w n) t w)) n"
proof -
  let ?L = "issue_labels (world (set_ci_label store_platform cfg n (issue_labels w n) t w)) n"
  have st: "stale_labels ?L t = {}"
    by (auto simp: labels_after_set_ci_label stale_labels_def split: if_splits)
  have mem: "t \<in> ?L"
    by (auto simp: labels_after_set_ci_label stale_labels_def)
  have "events (set_ci_label store_platform cfg n ?L t
                  (world (set_ci_label store_platform cfg n (issue_labels w n) t w))) = []"
    using st mem by (rule events_set_ci_label_settled)
  with st mem show ?thesis by simp
qed

text \<open>
  C8: for a target among the three CI labels, the stale labels are CI labels, the control
  label is neither stale nor the target, every request of the reconciler removes or adds a
  CI label, and on the storing platform the labels of the issue outside the CI labels are
  the same before and after, whatever label set the reconciler was given.
\<close>

theorem set_ci_label_frame:
  assumes "t \<in> CI_LABELS"
  shows "stale_labels existing t \<subseteq> CI_LABELS
     \<and> LABEL_AUTO_MERGE \<notin> stale_labels existing t
     \<and> t \<noteq> LABEL_AUTO_MERGE
     \<and> set (calls_of (events (set_ci_label P cfg n existing t w)))
         \<subseteq> (\<lambda>l. Call ''DELETE'' (''/repos/'' @ REPO cfg @ ''/issues/'' @ str_int n @ ''/labels/'' @ l) None)
             ` CI_LABELS
           \<union> (\<lambda>l. Call ''POST'' (''/repos/'' @ REPO cfg @ ''/issues/'' @ str_int n @ ''/labels'')
                       (Some (JObj [(''labels'', JArr [JStr l])])))
             ` CI_LABELS
     \<and> issue_labels (world (set_ci_label store_platform cfg n existing t v)) n - CI_LABELS
         = issue_labels v n - CI_LABELS"
proof (intro conjI)
  show "stale_labels existing t \<subseteq> CI_LABELS"
    by (auto simp: stale_labels_def)
  show "LABEL_AUTO_MERGE \<notin> stale_labels existing t"
    by (simp add: stale_labels_def CI_LABELS_def LABEL_AUTO_MERGE_def LABEL_PASSING_def
        LABEL_FAILING_def LABEL_NEEDS_REVIEW_def)
  show "t \<noteq> LABEL_AUTO_MERGE"
    using assms
    by (auto simp: CI_LABELS_def LABEL_AUTO_MERGE_def LABEL_PASSING_def
        LABEL_FAILING_def LABEL_NEEDS_REVIEW_def)
  have "set (visit cfg (stale_labels existing t)) = stale_labels existing t"
    by (simp add: set_visit finite_stale_labels)
  then have vis: "set (visit cfg (stale_labels existing t)) \<subseteq> CI_LABELS"
    by (auto simp: stale_labels_def)
  show "set (calls_of (events (set_ci_label P cfg n existing t w)))
         \<subseteq> (\<lambda>l. Call ''DELETE'' (''/repos/'' @ REPO cfg @ ''/issues/'' @ str_int n @ ''/labels/'' @ l) None)
             ` CI_LABELS
           \<union> (\<lambda>l. Call ''POST'' (''/repos/'' @ REPO cfg @ ''/issues/'' @ str_int n @ ''/labels'')
                       (Some (JObj [(''labels'', JArr [JStr l])])))
             ` CI_LABELS"
    using assms vis by (auto simp: set_ci_label_calls)
  show "issue_labels (world (set_ci_label store_platform cfg n existing t v)) n - CI_LABELS
         = issue_labels v n - CI_LABELS"
    using assms by (auto simp: labels_after_set_ci_label stale_labels_def split: if_splits)
qed

theorem set_ci_label_frame_witness:
  "''ci-passing'' \<in> CI_LABELS
   \<and> LABEL_AUTO_MERGE \<notin> stale_labels (issue_labels marked_once 7) ''ci-passing''
   \<and> issue_labels (world (set_ci_label store_platform example_config 7
                            (issue_labels marked_once 7) ''ci-passing'' marked_once)) 7 - CI_LABELS
       = {''auto-merge''}"
proof -
  have t: "''ci-passing'' \<in> CI_LABELS"
    by (simp add: CI_LABELS_def LABEL_PASSING_def)
  note frame = set_ci_label_frame
         [OF t, where existing = "issue_labels marked_once 7" and cfg = example_config and n = 7
            and v = marked_once and P = store_platform and w = marked_once]
  from frame have stale: "LABEL_AUTO_MERGE \<notin> stale_labels (issue_labels marked_once 7) ''ci-passing''"
    by blast
  from frame have kept:
    "issue_labels (world (set_ci_label store_platform example_config 7
                            (issue_labels marked_once 7) ''ci-passing'' marked_once)) 7 - CI_LABELS
       = issue_labels marked_once 7 - CI_LABELS"
    by blast
  have "issue_labels marked_once 7 - CI_LABELS = {''auto-merge''}"
    by (auto simp: marked_once_def CI_LABELS_def LABEL_PASSING_def LABEL_FAILING_def
        LABEL_NEEDS_REVIEW_def)
  with t stale kept show ?thesis
    by simp
qed

subsection \<open>Merge gating and the merge report\<close>



lemma filter_method_request:
  "filter (method_is m') (events (request m p b ep w)) = (if m' = m then [Call m p b] else [])"
  by (simp add: events_def request_def split: prod.splits http_result.splits)

lemma filter_method_for_each:
  assumes "\<And>x w. filter (method_is m) (events (f x w)) = []"
  shows "filter (method_is m) (events (for_each xs f w)) = []"
  using assms by (induction xs arbitrary: w) simp_all

lemma no_put_set_ci_label:
  "filter (method_is ''PUT'') (events (set_ci_label P cfg n existing t w)) = []"
  by (simp add: set_ci_label_def filter_method_for_each http_delete_def http_post_def
      filter_method_request)

lemma no_put_ci_status:
  "filter (method_is ''PUT'') (events (ci_status P cfg sha w)) = []"
  by (simp add: ci_status_def http_get_def filter_method_request)

lemma no_put_upsert_comment:
  "filter (method_is ''PUT'') (events (upsert_comment P cfg n txt w)) = []"
  by (simp add: upsert_comment_def bot_comment_id_def http_get_def http_post_def http_patch_def
      filter_method_request Let_def split: option.splits)

lemma put_auto_merge:
  "filter (method_is ''PUT'') (events (auto_merge P cfg n ttl w)) =
     [Call ''PUT'' (''/repos/'' @ REPO cfg @ ''/pulls/'' @ str_int n @ ''/merge'')
        (Some (JObj [(''merge_method'', JStr ''squash''),
                     (''commit_title'', JStr (''Auto-merge PR #'' @ str_int n @ '': '' @ ttl))]))]"
  by (simp add: auto_merge_def http_put_def filter_method_request merge_commit_title_def
      split: option.splits)

text \<open>
  C2: whatever the platform answers, the PUT requests sent while a pull request is handled
  are the one squash-merge request, with the commit title
  \<^verbatim>\<open>Auto-merge PR #<number>: <title>\<close>, when the CI state computed for the head commit is
  \<open>passing\<close> and \<^verbatim>\<open>auto-merge\<close> is among the labels of the pull request as it was read,
  and none otherwise.
\<close>

theorem merge_requested_iff:
  "filter (method_is ''PUT'') (events (handle_pr P cfg pr w)) =
     (if result (ci_status P cfg (head_sha pr) w) = Passing \<and> LABEL_AUTO_MERGE \<in> current_labels pr
      then [Call ''PUT'' (''/repos/'' @ REPO cfg @ ''/pulls/'' @ str_int (number pr) @ ''/merge'')
              (Some (JObj [(''merge_method'', JStr ''squash''),
                           (''commit_title'',
                            JStr (''Auto-merge PR #'' @ str_int (number pr) @ '': '' @ title pr))]))]
      else [])"
  by (simp add: handle_pr_def Let_def no_put_set_ci_label no_put_ci_status no_put_upsert_comment
      put_auto_merge)


subsection \<open>The comment upsert\<close>

lemma starts_with_append: "starts_with m (m @ s)"
  by (induction m) simp_all

lemma py_in_append: "py_in m (m @ s)"
  by (cases "m @ s") (use starts_with_append[of m s] in auto)

lemma has_marker_full: "has_marker (c\<lparr>body := Some (BOT_COMMENT_MARKER @ s)\<rparr>)"
  by (simp add: has_marker_def py_in_append)

lemma has_marker_new: "has_marker \<lparr>comment_id = i, body = Some (BOT_COMMENT_MARKER @ s)\<rparr>"
  by (simp add: has_marker_def py_in_append)

lemma first_marked_None: "first_marked cs = None \<longleftrightarrow> filter has_marker cs = []"
  by (induction cs) auto

lemma first_marked_Some:
  "first_marked cs = Some i \<Longrightarrow>
     \<exists>pre c post. cs = pre @ c # post \<and> has_marker c \<and> comment_id c = i \<and> filter has_marker pre = []"
proof (induction cs)
  case Nil
  then show ?case by simp
next
  case (Cons a cs)
  show ?case
  proof (cases "has_marker a")
    case True
    with Cons.prems
    have "a # cs = [] @ a # cs \<and> has_marker a \<and> comment_id a = i \<and> filter has_marker [] = []"
      by simp
    then show ?thesis by blast
  next
    case False
    with Cons.prems have "first_marked cs = Some i" by simp
    then obtain pre c post where
      "cs = pre @ c # post" "has_marker c" "comment_id c = i" "filter has_marker pre = []"
      using Cons.IH by blast
    with False have "a # cs = (a # pre) @ c # post \<and> has_marker c \<and> comment_id c = i
                     \<and> filter has_marker (a # pre) = []"
      by simp
    then show ?thesis by blast
  qed
qed

lemma map_set_body_other:
  "i \<notin> comment_id ` set cs \<Longrightarrow> map (set_body i b) cs = cs"
  by (induction cs) (auto simp: set_body_def)

text \<open>The ids of a listing.\<close>

lemma listing_ids:
  "c \<in> set (listing_from i n cs) \<Longrightarrow> i \<le> comment_id c \<and> comment_id c < i + int (length cs)"
proof (induction cs arbitrary: i)
  case Nil
  then show ?case by simp
next
  case (Cons a cs)
  obtain m b where a: "a = (m, b)" by (cases a)
  from Cons.prems a have "c = \<lparr>comment_id = i, body = b\<rparr> \<or> c \<in> set (listing_from (i + 1) n cs)"
    by (auto split: if_splits)
  then show ?case
  proof
    assume "c = \<lparr>comment_id = i, body = b\<rparr>"
    then show ?thesis by simp
  next
    assume "c \<in> set (listing_from (i + 1) n cs)"
    from Cons.IH[OF this] show ?thesis by simp
  qed
qed

lemma listing_distinct: "distinct (map comment_id (listing_from i n cs))"
proof (induction cs arbitrary: i)
  case Nil
  show ?case by simp
next
  case (Cons a cs)
  obtain m b where a: "a = (m, b)" by (cases a)
  have "i \<notin> comment_id ` set (listing_from (i + 1) n cs)"
    using listing_ids[of _ "i + 1" n cs] by force
  with Cons.IH[of "i + 1"] a show ?case by simp
qed

lemma listing_update:
  "j < length cs \<Longrightarrow>
     listing_from i n (cs[j := (fst (cs ! j), Some b)]) = map (set_body (i + int j) b) (listing_from i n cs)"
proof (induction cs arbitrary: i j)
  case Nil
  then show ?case by simp
next
  case (Cons a cs)
  obtain m b' where a: "a = (m, b')" by (cases a)
  show ?case
  proof (cases j)
    case 0
    have "i \<notin> comment_id ` set (listing_from (i + 1) n cs)"
      using listing_ids[of _ "i + 1" n cs] by force
    then have "map (set_body i b) (listing_from (i + 1) n cs) = listing_from (i + 1) n cs"
      by (rule map_set_body_other)
    moreover have "set_body i b \<lparr>comment_id = i, body = b'\<rparr> = \<lparr>comment_id = i, body = Some b\<rparr>"
      "set_body i b \<lparr>comment_id = i, body = b'\<rparr> = \<lparr>comment_id = i, body = b'\<rparr>\<lparr>body := Some b\<rparr>"
      by (simp_all add: set_body_def)
    ultimately show ?thesis
      using 0 a by simp
  next
    case (Suc j')
    with Cons.prems have j': "j' < length cs" by simp
    have "i + 1 + int j' = i + int j" using Suc by simp
    with Cons.IH[OF j', of "i + 1"]
    have IH: "listing_from (i + 1) n (cs[j' := (fst (cs ! j'), Some b)])
              = map (set_body (i + int j) b) (listing_from (i + 1) n cs)"
      by simp
    have "set_body (i + int j) b \<lparr>comment_id = i, body = b'\<rparr> = \<lparr>comment_id = i, body = b'\<rparr>"
      using Suc by (simp add: set_body_def)
    with Suc a IH show ?thesis
      by simp
  qed
qed

lemma listing_append:
  "listing_from i n (cs @ [(n, b)]) = listing_from i n cs @ [\<lparr>comment_id = i + int (length cs), body = b\<rparr>]"
  by (induction cs arbitrary: i) (auto simp: add.assoc)

lemma first_marked_in_range:
  assumes "first_marked (issue_comments w n) = Some i"
  shows "1 \<le> i \<and> i \<le> int (length (comments w))"
proof -
  from first_marked_Some[OF assms] obtain pre c post where
    "issue_comments w n = pre @ c # post" "comment_id c = i"
    by blast
  then have "c \<in> set (issue_comments w n)" "comment_id c = i"
    by simp_all
  with listing_ids[of c 1 n "comments w"] show ?thesis
    by (simp add: issue_comments_def)
qed

text \<open>The comments of an issue on the storing platform, after the upsert.\<close>

lemma comments_after_upsert:
  "issue_comments (world (upsert_comment store_platform cfg n txt w)) n =
     (case first_marked (issue_comments w n) of
        None \<Rightarrow> issue_comments w n
                 @ [\<lparr>comment_id = int (length (comments w)) + 1,
                     body = Some (BOT_COMMENT_MARKER @ nl @ txt)\<rparr>]
      | Some i \<Rightarrow> map (set_body i (BOT_COMMENT_MARKER @ nl @ txt)) (issue_comments w n))"
proof (cases "first_marked (issue_comments w n)")
  case None
  then show ?thesis
    by (simp add: upsert_comment_def bot_comment_id_def http_get_def http_post_def
        world_request result_request store_platform_def Let_def issue_comments_def listing_append)
next
  case (Some i)
  from first_marked_in_range[OF Some] have r: "1 \<le> i" "i \<le> int (length (comments w))"
    by simp_all
  then have j: "nat (i - 1) < length (comments w)" and i: "1 + int (nat (i - 1)) = i"
    by simp_all
  from listing_update[OF j, of 1 n "BOT_COMMENT_MARKER @ nl @ txt"] i
  have "listing_from 1 n ((comments w)[nat (i - 1) := (fst (comments w ! nat (i - 1)),
                                                      Some (BOT_COMMENT_MARKER @ nl @ txt))])
        = map (set_body i (BOT_COMMENT_MARKER @ nl @ txt)) (listing_from 1 n (comments w))"
    by simp
  with Some r show ?thesis
    by (simp add: upsert_comment_def bot_comment_id_def http_get_def http_patch_def
        world_request result_request store_platform_def Let_def issue_comments_def)
qed

text \<open>When every update and creation is refused, the comments stay as they are.\<close>

lemma comments_after_refused:
  "issue_comments (world (upsert_comment refusing_platform cfg n txt w)) n = issue_comments w n"
  by (simp add: upsert_comment_def bot_comment_id_def http_get_def http_post_def http_patch_def
      world_request result_request refusing_platform_def store_platform_def Let_def
      issue_comments_def split: option.splits)

text \<open>
  C5, as stated. After the upsert exactly one comment holds the marker: not when two held
  it before, since only the first is rewritten and two hold it after. Its content is the
  composed body: not when the platform refuses the update, since the agent's comment then
  keeps its old body.
\<close>

theorem upsert_comment_counterexample:
  "length (filter has_marker
     (issue_comments (world (upsert_comment store_platform example_config 7 ''status'' marked_twice)) 7))
   = 2
   \<and> map body (filter has_marker
        (issue_comments (world (upsert_comment refusing_platform example_config 7 ''status'' marked_once)) 7))
     = [Some ''<!-- pr-agent-bot --> old'']"
proof -
  have twice: "issue_comments marked_twice 7 =
                 [\<lparr>comment_id = 1, body = Some ''<!-- pr-agent-bot --> old''\<rparr>,
                  \<lparr>comment_id = 3, body = Some ''> <!-- pr-agent-bot --> quoted''\<rparr>]"
    by (simp add: issue_comments_def marked_twice_def)
  have once: "issue_comments marked_once 7 =
                [\<lparr>comment_id = 1, body = Some ''looks good''\<rparr>,
                 \<lparr>comment_id = 2, body = Some ''<!-- pr-agent-bot --> old''\<rparr>]"
    by (simp add: issue_comments_def marked_once_def)
  show ?thesis
    unfolding comments_after_upsert comments_after_refused twice once
    by (simp add: has_marker_def BOT_COMMENT_MARKER_def set_body_def nl_def)
qed

text \<open>
  C5, amended: on the storing platform (complete listing, every call succeeds), for every
  state, issue and text: when a comment holds the marker, the first such comment gets the
  marker, a newline and the text as its body, in its place and under its id, and every
  other comment of the issue is as before; when none holds it, a new comment with that body
  is appended. The comments that hold the marker afterwards are as many as before, and one
  when there was none; so when at most one held it before, exactly one holds it after, and
  its body is the composed body.
\<close>

theorem upsert_comment_converges:
  "(case first_marked (issue_comments w n) of
      Some i \<Rightarrow>
        (\<exists>pre c post.
            issue_comments w n = pre @ c # post \<and> filter has_marker pre = [] \<and> has_marker c
            \<and> comment_id c = i
            \<and> issue_comments (world (upsert_comment store_platform cfg n txt w)) n
                = pre @ c\<lparr>body := Some (BOT_COMMENT_MARKER @ nl @ txt)\<rparr> # post)
    | None \<Rightarrow>
        filter has_marker (issue_comments w n) = []
        \<and> issue_comments (world (upsert_comment store_platform cfg n txt w)) n
            = issue_comments w n
              @ [\<lparr>comment_id = int (length (comments w)) + 1,
                  body = Some (BOT_COMMENT_MARKER @ nl @ txt)\<rparr>])
   \<and> length (filter has_marker (issue_comments (world (upsert_comment store_platform cfg n txt w)) n))
       = max 1 (length (filter has_marker (issue_comments w n)))
   \<and> (length (filter has_marker (issue_comments w n)) \<le> 1 \<longrightarrow>
        (\<exists>c. filter has_marker (issue_comments (world (upsert_comment store_platform cfg n txt w)) n) = [c]
             \<and> body c = Some (BOT_COMMENT_MARKER @ nl @ txt)))"
proof (cases "first_marked (issue_comments w n)")
  case None
  then have none: "filter has_marker (issue_comments w n) = []"
    by (simp add: first_marked_None)
  with None show ?thesis
    by (simp add: comments_after_upsert has_marker_new)
next
  case (Some i)
  let ?full = "BOT_COMMENT_MARKER @ nl @ txt"
  let ?after = "issue_comments (world (upsert_comment store_platform cfg n txt w)) n"
  from first_marked_Some[OF Some] obtain pre c post where split: "issue_comments w n = pre @ c # post"
    and c: "has_marker c" "comment_id c = i" and pre: "filter has_marker pre = []"
    by blast
  have "distinct (map comment_id (issue_comments w n))"
    by (simp add: issue_comments_def listing_distinct)
  with split c have "i \<notin> comment_id ` set pre" "i \<notin> comment_id ` set post"
    by auto
  then have upd: "map (set_body i ?full) (issue_comments w n) = pre @ c\<lparr>body := Some ?full\<rparr> # post"
    using c by (simp add: split map_set_body_other set_body_def)
  have after: "?after = pre @ c\<lparr>body := Some ?full\<rparr> # post"
    using Some upd by (simp add: comments_after_upsert)
  have marked: "filter has_marker ?after = c\<lparr>body := Some ?full\<rparr> # filter has_marker post"
    unfolding after using pre by (simp add: has_marker_full)
  have before: "filter has_marker (issue_comments w n) = c # filter has_marker post"
    unfolding split using pre c by simp
  have first: "\<exists>pre c post.
            issue_comments w n = pre @ c # post \<and> filter has_marker pre = [] \<and> has_marker c
            \<and> comment_id c = i \<and> ?after = pre @ c\<lparr>body := Some ?full\<rparr> # post"
    using split pre c after by blast
  have count: "length (filter has_marker ?after) = max 1 (length (filter has_marker (issue_comments w n)))"
    unfolding marked before by simp
  have one: "length (filter has_marker (issue_comments w n)) \<le> 1 \<longrightarrow>
        (\<exists>c. filter has_marker ?after = [c] \<and> body c = Some ?full)"
    unfolding marked before by simp
  from first count one show ?thesis
    unfolding Some option.case by (intro conjI)
qed

theorem upsert_comment_converges_witness:
  "length (filter has_marker (issue_comments marked_once 7)) \<le> 1
   \<and> (\<exists>c. filter has_marker
             (issue_comments (world (upsert_comment store_platform example_config 7 ''status'' marked_once)) 7)
           = [c]
          \<and> body c = Some (BOT_COMMENT_MARKER @ nl @ ''status''))"
proof -
  have "issue_comments marked_once 7 =
          [\<lparr>comment_id = 1, body = Some ''looks good''\<rparr>,
           \<lparr>comment_id = 2, body = Some ''<!-- pr-agent-bot --> old''\<rparr>]"
    by (simp add: issue_comments_def marked_once_def)
  then have m: "length (filter has_marker (issue_comments marked_once 7)) \<le> 1"
    by (simp add: has_marker_def BOT_COMMENT_MARKER_def)
  note conv = upsert_comment_converges [of marked_once 7 example_config "''status''"]
  from conv have
    "length (filter has_marker (issue_comments marked_once 7)) \<le> 1 \<longrightarrow>
       (\<exists>c. filter has_marker
             (issue_comments (world (upsert_comment store_platform example_config 7 ''status'' marked_once)) 7)
           = [c]
          \<and> body c = Some (BOT_COMMENT_MARKER @ nl @ ''status''))"
    by blast
  with m show ?thesis
    by blast
qed

subsection \<open>Failed calls and the end of the run\<close>

text \<open>The loop over the pages gives what the listing within \<open>k\<close> pages gives.\<close>

lemma fetch_pulls_failed:
  "pages P cfg page prs w k = PageFailed \<Longrightarrow>
     \<exists>es' w'. fetch_pulls P cfg page prs es w = Some (None, es', w')
            \<and> last es' = Stderr ''Failed to fetch open PRs.''"
proof (induction k arbitrary: page prs w es)
  case 0
  then show ?case by simp
next
  case (Suc k)
  obtain r es1 w1 where get:
    "http_get (''/repos/'' @ REPO cfg @ ''/pulls?state=open&per_page=100&page='' @ str_int page)
       (list_pulls P page) w = (r, es1, w1)"
    by (rule prod_cases3)
  show ?case
  proof (cases r)
    case None
    with get show ?thesis
      by (subst fetch_pulls.simps) simp
  next
    case (Some page_data)
    with Suc.prems get have full: "\<not> length page_data < 100"
      and rest: "pages P cfg (page + 1) (prs @ page_data) w1 k = PageFailed"
      by (auto split: if_splits)
    from Suc.IH[OF rest, of "es @ es1"] get Some full show ?thesis
      by (subst fetch_pulls.simps) simp
  qed
qed

lemma fetch_pulls_listed:
  "pages P cfg page prs w k = Listed prs' \<Longrightarrow>
     \<exists>es' w'. fetch_pulls P cfg page prs es w = Some (Some prs', es', w')"
proof (induction k arbitrary: page prs w es)
  case 0
  then show ?case by simp
next
  case (Suc k)
  obtain r es1 w1 where get:
    "http_get (''/repos/'' @ REPO cfg @ ''/pulls?state=open&per_page=100&page='' @ str_int page)
       (list_pulls P page) w = (r, es1, w1)"
    by (rule prod_cases3)
  show ?case
  proof (cases r)
    case None
    with Suc.prems get show ?thesis by simp
  next
    case (Some page_data)
    show ?thesis
    proof (cases "length page_data < 100")
      case True
      with Suc.prems get Some show ?thesis
        by (subst fetch_pulls.simps) simp
    next
      case False
      with Suc.prems get Some have rest: "pages P cfg (page + 1) (prs @ page_data) w1 k = Listed prs'"
        by simp
      from Suc.IH[OF rest, of "es @ es1"] get Some False show ?thesis
        by (subst fetch_pulls.simps) simp
    qed
  qed
qed

text \<open>The requests of each step of the handling of a pull request, whatever the answers.\<close>

lemma calls_of_print [simp]: "calls_of (events (print s w)) = []"
  and calls_of_eprint [simp]: "calls_of (events (eprint s w)) = []"
  by (simp_all add: calls_of_def)

lemma calls_of_Cons: "calls_of (e # es) = (if is_call e then e # calls_of es else calls_of es)"
  by (simp add: calls_of_def)

lemma calls_of_return [simp]: "calls_of (events (io_return x w)) = []"
  by simp

lemma calls_of_ci_status:
  "calls_of (events (ci_status P cfg sha w)) =
     [Call ''GET'' (''/repos/'' @ REPO cfg @ ''/commits/'' @ sha @ ''/check-runs?per_page=100'') None]"
  by (simp add: ci_status_def http_get_def)

lemma calls_of_upsert_comment:
  "\<exists>u. (u = Call ''POST'' (''/repos/'' @ REPO cfg @ ''/issues/'' @ str_int n @ ''/comments'')
               (Some (JObj [(''body'', JStr (BOT_COMMENT_MARKER @ nl @ txt))]))
         \<or> (\<exists>i. u = Call ''PATCH'' (''/repos/'' @ REPO cfg @ ''/issues/comments/'' @ str_int i)
                      (Some (JObj [(''body'', JStr (BOT_COMMENT_MARKER @ nl @ txt))]))))
      \<and> calls_of (events (upsert_comment P cfg n txt w)) =
          [Call ''GET'' (''/repos/'' @ REPO cfg @ ''/issues/'' @ str_int n @ ''/comments'') None, u]"
  by (cases "result (bot_comment_id P cfg n w)")
     (auto simp: upsert_comment_def bot_comment_id_def http_get_def http_post_def http_patch_def
        Let_def)

lemma calls_of_auto_merge:
  "calls_of (events (auto_merge P cfg n ttl w)) =
     [Call ''PUT'' (''/repos/'' @ REPO cfg @ ''/pulls/'' @ str_int n @ ''/merge'')
        (Some (JObj [(''merge_method'', JStr ''squash''),
                     (''commit_title'', JStr (''Auto-merge PR #'' @ str_int n @ '': '' @ ttl))]))]"
  by (simp add: auto_merge_def http_put_def merge_commit_title_def calls_of_Cons
      split: option.splits)

lemma calls_of_handle_pr:
  "\<exists>xs u.
      set xs = stale_labels (current_labels pr) (label_map (result (ci_status P cfg (head_sha pr) v)))
    \<and> distinct xs
    \<and> (u = Call ''POST'' (''/repos/'' @ REPO cfg @ ''/issues/'' @ str_int (number pr) @ ''/comments'')
              (Some (JObj [(''body'', JStr (BOT_COMMENT_MARKER @ nl @
                 status_comment (number pr) (head_sha pr) (result (ci_status P cfg (head_sha pr) v))
                   (label_map (result (ci_status P cfg (head_sha pr) v)))))]))
        \<or> (\<exists>i. u = Call ''PATCH'' (''/repos/'' @ REPO cfg @ ''/issues/comments/'' @ str_int i)
              (Some (JObj [(''body'', JStr (BOT_COMMENT_MARKER @ nl @
                 status_comment (number pr) (head_sha pr) (result (ci_status P cfg (head_sha pr) v))
                   (label_map (result (ci_status P cfg (head_sha pr) v)))))]))))
    \<and> calls_of (events (handle_pr P cfg pr v)) =
        Call ''GET'' (''/repos/'' @ REPO cfg @ ''/commits/'' @ head_sha pr @ ''/check-runs?per_page=100'') None
        # map (\<lambda>l. Call ''DELETE''
                       (''/repos/'' @ REPO cfg @ ''/issues/'' @ str_int (number pr) @ ''/labels/'' @ l) None) xs
        @ (if label_map (result (ci_status P cfg (head_sha pr) v)) \<in> current_labels pr then []
           else [Call ''POST'' (''/repos/'' @ REPO cfg @ ''/issues/'' @ str_int (number pr) @ ''/labels'')
                   (Some (JObj [(''labels'', JArr [JStr (label_map (result (ci_status P cfg (head_sha pr) v)))])]))])
        @ [Call ''GET'' (''/repos/'' @ REPO cfg @ ''/issues/'' @ str_int (number pr) @ ''/comments'') None, u]
        @ (if result (ci_status P cfg (head_sha pr) v) = Passing \<and> LABEL_AUTO_MERGE \<in> current_labels pr
           then [Call ''PUT'' (''/repos/'' @ REPO cfg @ ''/pulls/'' @ str_int (number pr) @ ''/merge'')
                   (Some (JObj [(''merge_method'', JStr ''squash''),
                                (''commit_title'',
                                 JStr (''Auto-merge PR #'' @ str_int (number pr) @ '': '' @ title pr))]))]
           else [])"
proof -
  let ?st = "result (ci_status P cfg (head_sha pr) v)"
  let ?w1 = "world (ci_status P cfg (head_sha pr) v)"
  let ?w2 = "world (set_ci_label P cfg (number pr) (current_labels pr) (label_map ?st) ?w1)"
  let ?txt = "status_comment (number pr) (head_sha pr) ?st (label_map ?st)"
  let ?xs = "visit cfg (stale_labels (current_labels pr) (label_map ?st))"
  obtain u where u:
    "u = Call ''POST'' (''/repos/'' @ REPO cfg @ ''/issues/'' @ str_int (number pr) @ ''/comments'')
               (Some (JObj [(''body'', JStr (BOT_COMMENT_MARKER @ nl @ ?txt))]))
     \<or> (\<exists>i. u = Call ''PATCH'' (''/repos/'' @ REPO cfg @ ''/issues/comments/'' @ str_int i)
                      (Some (JObj [(''body'', JStr (BOT_COMMENT_MARKER @ nl @ ?txt))])))"
    and up: "calls_of (events (upsert_comment P cfg (number pr) ?txt ?w2)) =
          [Call ''GET'' (''/repos/'' @ REPO cfg @ ''/issues/'' @ str_int (number pr) @ ''/comments'') None, u]"
    using calls_of_upsert_comment[of cfg "number pr" ?txt P ?w2] by blast
  have xs: "set ?xs = stale_labels (current_labels pr) (label_map ?st)" "distinct ?xs"
    by (simp_all add: set_visit finite_stale_labels distinct_visit)
  have calls: "calls_of (events (handle_pr P cfg pr v)) =
        Call ''GET'' (''/repos/'' @ REPO cfg @ ''/commits/'' @ head_sha pr @ ''/check-runs?per_page=100'') None
        # map (\<lambda>l. Call ''DELETE''
                       (''/repos/'' @ REPO cfg @ ''/issues/'' @ str_int (number pr) @ ''/labels/'' @ l) None) ?xs
        @ (if label_map ?st \<in> current_labels pr then []
           else [Call ''POST'' (''/repos/'' @ REPO cfg @ ''/issues/'' @ str_int (number pr) @ ''/labels'')
                   (Some (JObj [(''labels'', JArr [JStr (label_map ?st)])]))])
        @ [Call ''GET'' (''/repos/'' @ REPO cfg @ ''/issues/'' @ str_int (number pr) @ ''/comments'') None, u]
        @ (if ?st = Passing \<and> LABEL_AUTO_MERGE \<in> current_labels pr
           then [Call ''PUT'' (''/repos/'' @ REPO cfg @ ''/pulls/'' @ str_int (number pr) @ ''/merge'')
                   (Some (JObj [(''merge_method'', JStr ''squash''),
                                (''commit_title'',
                                 JStr (''Auto-merge PR #'' @ str_int (number pr) @ '': '' @ title pr))]))]
           else [])"
  proof -
    let ?w3 = "world (upsert_comment P cfg (number pr) ?txt ?w2)"
    have steps: "calls_of (events (handle_pr P cfg pr v)) =
        calls_of (events (ci_status P cfg (head_sha pr) v))
        @ calls_of (events (set_ci_label P cfg (number pr) (current_labels pr) (label_map ?st) ?w1))
        @ calls_of (events (upsert_comment P cfg (number pr) ?txt ?w2))
        @ calls_of (events ((if ?st = Passing \<and> LABEL_AUTO_MERGE \<in> current_labels pr
                             then auto_merge P cfg (number pr) (title pr) else io_return ()) ?w3))"
      by (simp add: handle_pr_def Let_def calls_of_Cons split del: if_split)
    have merge: "calls_of (events ((if ?st = Passing \<and> LABEL_AUTO_MERGE \<in> current_labels pr
                             then auto_merge P cfg (number pr) (title pr) else io_return ()) ?w3)) =
        (if ?st = Passing \<and> LABEL_AUTO_MERGE \<in> current_labels pr
           then [Call ''PUT'' (''/repos/'' @ REPO cfg @ ''/pulls/'' @ str_int (number pr) @ ''/merge'')
                   (Some (JObj [(''merge_method'', JStr ''squash''),
                                (''commit_title'',
                                 JStr (''Auto-merge PR #'' @ str_int (number pr) @ '': '' @ title pr))]))]
           else [])"
      by (simp add: calls_of_auto_merge)
    show ?thesis
      unfolding steps merge calls_of_ci_status set_ci_label_calls up by simp
  qed
  from xs u calls show ?thesis
    by blast
qed

lemma in_calls_of: "c \<in> set (calls_of es) \<Longrightarrow> c \<in> set es"
  by (simp add: calls_of_def)

lemma handle_pr_reads:
  "Call ''GET'' (''/repos/'' @ REPO cfg @ ''/commits/'' @ head_sha pr @ ''/check-runs?per_page=100'') None
     \<in> set (events (handle_pr P cfg pr w))
   \<and> Call ''GET'' (''/repos/'' @ REPO cfg @ ''/issues/'' @ str_int (number pr) @ ''/comments'') None
     \<in> set (events (handle_pr P cfg pr w))"
proof -
  from calls_of_handle_pr[of pr P cfg w] obtain xs u where
    "calls_of (events (handle_pr P cfg pr w)) =
        Call ''GET'' (''/repos/'' @ REPO cfg @ ''/commits/'' @ head_sha pr @ ''/check-runs?per_page=100'') None
        # map (\<lambda>l. Call ''DELETE''
                       (''/repos/'' @ REPO cfg @ ''/issues/'' @ str_int (number pr) @ ''/labels/'' @ l) None) xs
        @ (if label_map (result (ci_status P cfg (head_sha pr) w)) \<in> current_labels pr then []
           else [Call ''POST'' (''/repos/'' @ REPO cfg @ ''/issues/'' @ str_int (number pr) @ ''/labels'')
                   (Some (JObj [(''labels'', JArr [JStr (label_map (result (ci_status P cfg (head_sha pr) w)))])]))])
        @ [Call ''GET'' (''/repos/'' @ REPO cfg @ ''/issues/'' @ str_int (number pr) @ ''/comments'') None, u]
        @ (if result (ci_status P cfg (head_sha pr) w) = Passing \<and> LABEL_AUTO_MERGE \<in> current_labels pr
           then [Call ''PUT'' (''/repos/'' @ REPO cfg @ ''/pulls/'' @ str_int (number pr) @ ''/merge'')
                   (Some (JObj [(''merge_method'', JStr ''squash''),
                                (''commit_title'',
                                 JStr (''Auto-merge PR #'' @ str_int (number pr) @ '': '' @ title pr))]))]
           else [])"
    by blast
  then have
    "Call ''GET'' (''/repos/'' @ REPO cfg @ ''/commits/'' @ head_sha pr @ ''/check-runs?per_page=100'') None
       \<in> set (calls_of (events (handle_pr P cfg pr w)))"
    "Call ''GET'' (''/repos/'' @ REPO cfg @ ''/issues/'' @ str_int (number pr) @ ''/comments'') None
       \<in> set (calls_of (events (handle_pr P cfg pr w)))"
    by simp_all
  then show ?thesis
    by (simp add: in_calls_of)
qed

lemma for_each_reaches:
  assumes "x \<in> set xs" and "\<And>w. e \<in> set (events (f x w))"
  shows "e \<in> set (events (for_each xs f w))"
  using assms by (induction xs arbitrary: w) auto

lemma handle_all_reads:
  assumes "pr \<in> set prs"
  shows "Call ''GET'' (''/repos/'' @ REPO cfg @ ''/commits/'' @ head_sha pr @ ''/check-runs?per_page=100'') None
           \<in> set (events (handle_all P cfg prs w))
         \<and> Call ''GET'' (''/repos/'' @ REPO cfg @ ''/issues/'' @ str_int (number pr) @ ''/comments'') None
           \<in> set (events (handle_all P cfg prs w))"
  using for_each_reaches[OF assms, of _ "handle_pr P cfg"] handle_pr_reads[of cfg pr P]
  by (simp add: handle_all_def)

text \<open>The end of the run, for a listing that fails and for one that ends.\<close>

lemma last_handle_all: "last (es1 @ events (handle_all P cfg prs w1)) = Stdout ''PR Agent done.''"
  by (simp add: handle_all_def)

lemma ci_status_failed:
  "result (ci_status (P\<lparr>get_check_runs := \<lambda>sha v. (HTTPError c raw, v)\<rparr>) cfg sha v) = Pending"
  by (simp add: ci_status_def http_get_def result_request)

lemma bot_comment_id_failed:
  "result (bot_comment_id (P\<lparr>list_comments := \<lambda>n v. (HTTPError c raw, v)\<rparr>) cfg n v) = None"
  by (simp add: bot_comment_id_def http_get_def result_request)

lemma ensure_label_exists_failed:
  "calls_of (events (ensure_label_exists (P\<lparr>get_label := \<lambda>l v. (HTTPError c raw, v)\<rparr>) cfg l col v)) =
     [Call ''GET'' (''/repos/'' @ REPO cfg @ ''/labels/'' @ l) None,
      Call ''POST'' (''/repos/'' @ REPO cfg @ ''/labels'')
        (Some (JObj [(''name'', JStr l), (''color'', JStr col)]))]"
  by (simp add: ensure_label_exists_def http_get_def http_post_def result_request)

lemma main_page_failed:
  assumes "TOKEN cfg \<noteq> []" and "REPO cfg \<noteq> []"
    and "pages P cfg 1 [] (world (provision P cfg w)) k = PageFailed"
  shows "\<exists>es w'. main P cfg w = Some (SysExit 1, es, w')
                 \<and> last es = Stderr ''Failed to fetch open PRs.''"
proof -
  from fetch_pulls_failed[OF assms(3), of "events (provision P cfg w)"]
  obtain es' w' where "fetch_pulls P cfg 1 [] (events (provision P cfg w)) (world (provision P cfg w))
                         = Some (None, es', w')"
    and "last es' = Stderr ''Failed to fetch open PRs.''"
    by blast
  with assms(1,2) show ?thesis
    by (simp add: main_def)
qed

lemma main_listed:
  assumes "TOKEN cfg \<noteq> []" and "REPO cfg \<noteq> []"
    and "pages P cfg 1 [] (world (provision P cfg w)) k = Listed prs"
  shows "\<exists>es w'. main P cfg w = Some (Completed, es, w')
            \<and> last es = Stdout ''PR Agent done.''
            \<and> (\<forall>pr \<in> set prs.
                  Call ''GET'' (''/repos/'' @ REPO cfg @ ''/commits/'' @ head_sha pr
                                @ ''/check-runs?per_page=100'') None \<in> set es
                  \<and> Call ''GET'' (''/repos/'' @ REPO cfg @ ''/issues/'' @ str_int (number pr)
                                  @ ''/comments'') None \<in> set es)"
proof -
  from fetch_pulls_listed[OF assms(3), of "events (provision P cfg w)"]
  obtain es' w' where "fetch_pulls P cfg 1 [] (events (provision P cfg w)) (world (provision P cfg w))
                         = Some (Some prs, es', w')"
    by blast
  with assms(1,2) have m: "main P cfg w = Some (Completed, es' @ events (handle_all P cfg prs w'),
                                                world (handle_all P cfg prs w'))"
    by (simp add: main_def)
  have "\<forall>pr \<in> set prs.
          Call ''GET'' (''/repos/'' @ REPO cfg @ ''/commits/'' @ head_sha pr
                        @ ''/check-runs?per_page=100'') None \<in> set (es' @ events (handle_all P cfg prs w'))
          \<and> Call ''GET'' (''/repos/'' @ REPO cfg @ ''/issues/'' @ str_int (number pr)
                          @ ''/comments'') None \<in> set (es' @ events (handle_all P cfg prs w'))"
    using handle_all_reads[of _ prs cfg P w'] by simp
  with m last_handle_all[of es' P cfg prs w'] show ?thesis
    by blast
qed

text \<open>
  C6, as stated: no failed call ends the run once the token and the repository are set, a
  failed page of the open pull requests included, and every failure becomes an empty
  result. Not so: when that page fails the run ends with \<^verbatim>\<open>sys.exit(1)\<close>, and a failure
  that is not an \<^verbatim>\<open>HTTPError\<close> is not caught in \<^verbatim>\<open>_request\<close>.
\<close>

theorem failed_calls_counterexample:
  "map_option fst (main no_pulls_platform example_config ()) = Some (SysExit 1)
   \<and> request_try (RaisedOther ''URLError'' :: json urlopen) = Inl ''URLError''"
  by (simp add: main_def example_config_def fetch_pulls.simps http_get_def request_def
      no_pulls_platform_def fixed_platform_def)

text \<open>
  C6, amended, with the token and the repository set and for every platform, whatever its
  calls answer (payload, empty body or HTTP error):
  \<^item> when a page of the open pull requests is not a list, the run exits with status 1 right
    after the line \<^verbatim>\<open>Failed to fetch open PRs.\<close>;
  \<^item> when the listing ends, the run completes, and for every pull request read both its
    check runs and its comments have been requested;
  \<^item> the handling of a pull request always sends, in this order, the request for the check
    runs, one removal for each stale label, the addition of the target label when absent,
    the request for the comments, the update or the creation of the status comment, and the
    merge request when gated in: no answer to an earlier request cuts the later ones short;
  \<^item> a failed check-run call gives \<open>pending\<close>, a failed comment listing gives no comment
    id, and after a failed label lookup the label is created;
  \<^item> an exception that is not an \<^verbatim>\<open>HTTPError\<close> leaves \<^verbatim>\<open>_request\<close>.
\<close>

theorem http_failures_tolerated_except_pull_list:
  assumes "TOKEN cfg \<noteq> []" and "REPO cfg \<noteq> []"
  shows "(pages P cfg 1 [] (world (provision P cfg w)) k = PageFailed \<longrightarrow>
            (\<exists>es w'. main P cfg w = Some (SysExit 1, es, w')
                     \<and> last es = Stderr ''Failed to fetch open PRs.''))
     \<and> (pages P cfg 1 [] (world (provision P cfg w)) k = Listed prs \<longrightarrow>
            (\<exists>es w'. main P cfg w = Some (Completed, es, w')
                \<and> last es = Stdout ''PR Agent done.''
                \<and> (\<forall>pr \<in> set prs.
                      Call ''GET'' (''/repos/'' @ REPO cfg @ ''/commits/'' @ head_sha pr
                                    @ ''/check-runs?per_page=100'') None \<in> set es
                      \<and> Call ''GET'' (''/repos/'' @ REPO cfg @ ''/issues/'' @ str_int (number pr)
                                      @ ''/comments'') None \<in> set es)))
     \<and> (\<exists>xs u.
          set xs = stale_labels (current_labels pr) (label_map (result (ci_status P cfg (head_sha pr) v)))
        \<and> distinct xs
        \<and> (u = Call ''POST'' (''/repos/'' @ REPO cfg @ ''/issues/'' @ str_int (number pr) @ ''/comments'')
                  (Some (JObj [(''body'', JStr (BOT_COMMENT_MARKER @ nl @
                     status_comment (number pr) (head_sha pr) (result (ci_status P cfg (head_sha pr) v))
                       (label_map (result (ci_status P cfg (head_sha pr) v)))))]))
            \<or> (\<exists>i. u = Call ''PATCH'' (''/repos/'' @ REPO cfg @ ''/issues/comments/'' @ str_int i)
                  (Some (JObj [(''body'', JStr (BOT_COMMENT_MARKER @ nl @
                     status_comment (number pr) (head_sha pr) (result (ci_status P cfg (head_sha pr) v))
                       (label_map (result (ci_status P cfg (head_sha pr) v)))))]))))
        \<and> calls_of (events (handle_pr P cfg pr v)) =
            Call ''GET'' (''/repos/'' @ REPO cfg @ ''/commits/'' @ head_sha pr @ ''/check-runs?per_page=100'') None
            # map (\<lambda>l. Call ''DELETE''
                           (''/repos/'' @ REPO cfg @ ''/issues/'' @ str_int (number pr) @ ''/labels/'' @ l) None) xs
            @ (if label_map (result (ci_status P cfg (head_sha pr) v)) \<in> current_labels pr then []
               else [Call ''POST'' (''/repos/'' @ REPO cfg @ ''/issues/'' @ str_int (number pr) @ ''/labels'')
                       (Some (JObj [(''labels'', JArr [JStr (label_map (result (ci_status P cfg (head_sha pr) v)))])]))])
            @ [Call ''GET'' (''/repos/'' @ REPO cfg @ ''/issues/'' @ str_int (number pr) @ ''/comments'') None, u]
            @ (if result (ci_status P cfg (head_sha pr) v) = Passing \<and> LABEL_AUTO_MERGE \<in> current_labels pr
               then [Call ''PUT'' (''/repos/'' @ REPO cfg @ ''/pulls/'' @ str_int (number pr) @ ''/merge'')
                       (Some (JObj [(''merge_method'', JStr ''squash''),
                                    (''commit_title'',
                                     JStr (''Auto-merge PR #'' @ str_int (number pr) @ '': '' @ title pr))]))]
               else []))
     \<and> result (ci_status (P\<lparr>get_check_runs := \<lambda>sha v. (HTTPError c raw, v)\<rparr>) cfg sha v) = Pending
     \<and> result (bot_comment_id (P\<lparr>list_comments := \<lambda>n v. (HTTPError c raw, v)\<rparr>) cfg n v) = None
     \<and> calls_of (events (ensure_label_exists (P\<lparr>get_label := \<lambda>l v. (HTTPError c raw, v)\<rparr>) cfg l col v)) =
         [Call ''GET'' (''/repos/'' @ REPO cfg @ ''/labels/'' @ l) None,
          Call ''POST'' (''/repos/'' @ REPO cfg @ ''/labels'')
            (Some (JObj [(''name'', JStr l), (''color'', JStr col)]))]
     \<and> request_try (RaisedOther e) = Inl e"
  using main_page_failed[OF assms, of P w k] main_listed[OF assms, of P w k prs]
    calls_of_handle_pr[of pr P cfg v]
  by (intro conjI impI)
     (simp_all add: ci_status_failed bot_comment_id_failed ensure_label_exists_failed)

theorem http_failures_tolerated_except_pull_list_witness:
  "TOKEN example_config \<noteq> [] \<and> REPO example_config \<noteq> []
   \<and> pages no_pulls_platform example_config 1 []
         (world (provision no_pulls_platform example_config ())) 1 = PageFailed
   \<and> (\<exists>es w'. main no_pulls_platform example_config () = Some (SysExit 1, es, w')
               \<and> last es = Stderr ''Failed to fetch open PRs.'')
   \<and> pages failing_platform example_config 1 []
         (world (provision failing_platform example_config ())) 1 = Listed [example_pull]
   \<and> (\<exists>es w'. main failing_platform example_config () = Some (Completed, es, w')
               \<and> last es = Stdout ''PR Agent done.''
               \<and> Call ''GET'' (''/repos/'' @ REPO example_config @ ''/commits/'' @ head_sha example_pull
                               @ ''/check-runs?per_page=100'') None \<in> set es)"
proof -
  have t: "TOKEN example_config \<noteq> []" and r: "REPO example_config \<noteq> []"
    by (simp_all add: example_config_def)
  have failed: "pages no_pulls_platform example_config 1 []
                  (world (provision no_pulls_platform example_config ())) (Suc 0) = PageFailed"
    by (simp add: http_get_def request_def no_pulls_platform_def fixed_platform_def)
  have listed: "pages failing_platform example_config 1 []
                  (world (provision failing_platform example_config ())) (Suc 0) = Listed [example_pull]"
    by (simp add: http_get_def request_def failing_platform_def fixed_platform_def)
  note abort = http_failures_tolerated_except_pull_list
                 [OF t r, where P = no_pulls_platform and w = "()" and k = "Suc 0"]
  note complete = http_failures_tolerated_except_pull_list
                 [OF t r, where P = failing_platform and w = "()" and k = "Suc 0"
                    and prs = "[example_pull]"]
  from abort failed have a:
    "\<exists>es w'. main no_pulls_platform example_config () = Some (SysExit 1, es, w')
             \<and> last es = Stderr ''Failed to fetch open PRs.''"
    by blast
  from complete listed have
    "\<exists>es w'. main failing_platform example_config () = Some (Completed, es, w')
        \<and> last es = Stdout ''PR Agent done.''
        \<and> (\<forall>pr \<in> set [example_pull].
              Call ''GET'' (''/repos/'' @ REPO example_config @ ''/commits/'' @ head_sha pr
                            @ ''/check-runs?per_page=100'') None \<in> set es
              \<and> Call ''GET'' (''/repos/'' @ REPO example_config @ ''/issues/'' @ str_int (number pr)
                              @ ''/comments'') None \<in> set es)"
    by blast
  then have b:
    "\<exists>es w'. main failing_platform example_config () = Some (Completed, es, w')
        \<and> last es = Stdout ''PR Agent done.''
        \<and> Call ''GET'' (''/repos/'' @ REPO example_config @ ''/commits/'' @ head_sha example_pull
                        @ ''/check-runs?per_page=100'') None \<in> set es"
    by auto
  from t r failed listed a b show ?thesis
    by simp
qed

subsection \<open>The scenarios of the specification\<close>

lemma scenario_1:
  "classify [\<lparr>status = Some ''completed'', conclusion = Some ''success''\<rparr>,
             \<lparr>status = Some ''completed'', conclusion = Some ''skipped''\<rparr>] = Passing"
  by (simp add: classify_def conclusions_def List.map_filter_simps)

lemma scenario_2:
  "classify [\<lparr>status = Some ''completed'', conclusion = Some ''success''\<rparr>,
             \<lparr>status = Some ''completed'', conclusion = Some ''failure''\<rparr>] = Failing"
  by (simp add: classify_def conclusions_def List.map_filter_simps)

lemma scenario_3:
  "classify [] = Pending
   \<and> calls_of (events (set_ci_label P cfg n {} ''needs-review'' w)) =
       [Call ''POST'' (''/repos/'' @ REPO cfg @ ''/issues/'' @ str_int n @ ''/labels'')
          (Some (JObj [(''labels'', JArr [JStr ''needs-review''])]))]"
  by (simp add: classify_def set_ci_label_calls stale_labels_def visit_empty)

lemma scenario_4:
  "calls_of (events (set_ci_label P example_config 7 {''ci-failing'', ''auto-merge''} ''ci-passing'' w)) =
     [Call ''DELETE'' ''/repos/o/r/issues/7/labels/ci-failing'' None,
      Call ''POST'' ''/repos/o/r/issues/7/labels'' (Some (JObj [(''labels'', JArr [JStr ''ci-passing''])]))]"
proof -
  have "stale_labels {''ci-failing'', ''auto-merge''} ''ci-passing'' = {''ci-failing''}"
    by (auto simp: stale_labels_def CI_LABELS_def LABEL_PASSING_def LABEL_FAILING_def
        LABEL_NEEDS_REVIEW_def)
  then show ?thesis
    by (simp add: set_ci_label_calls visit_def)
       (simp add: example_config_def str_int_def str_nat.simps digit_char_def)
qed

text \<open>Two stale labels, visited in the order of the example configuration.\<close>

lemma visit_example:
  "visit example_config {''ci-failing'', ''needs-review''} = [''needs-review'', ''ci-failing'']"
  by (simp add: visit_def example_config_def)

lemma stale_example:
  "stale_labels {''ci-failing'', ''needs-review''} ''ci-passing'' = {''ci-failing'', ''needs-review''}"
  by (auto simp: stale_labels_def CI_LABELS_def LABEL_PASSING_def LABEL_FAILING_def LABEL_NEEDS_REVIEW_def)

lemma scenario_order:
  "calls_of (events (set_ci_label P example_config 7 {''ci-failing'', ''needs-review''} ''ci-passing'' w)) =
     [Call ''DELETE'' ''/repos/o/r/issues/7/labels/needs-review'' None,
      Call ''DELETE'' ''/repos/o/r/issues/7/labels/ci-failing'' None,
      Call ''POST'' ''/repos/o/r/issues/7/labels'' (Some (JObj [(''labels'', JArr [JStr ''ci-passing''])]))]"
  by (simp add: set_ci_label_calls stale_example visit_example)
     (simp add: example_config_def str_int_def str_nat.simps digit_char_def)

lemma scenario_unknown:
  "classify [\<lparr>status = Some ''completed'', conclusion = Some ''success''\<rparr>,
             \<lparr>status = Some ''completed'', conclusion = Some ''action_required''\<rparr>] = Pending
   \<and> classify [\<lparr>status = Some ''in_progress'', conclusion = None\<rparr>] = Pending
   \<and> classify [\<lparr>status = Some ''completed'', conclusion = None\<rparr>] = Pending"
  by (simp add: classify_def conclusions_def List.map_filter_simps)

text \<open>
  Every call of the handling of a pull request fails with an HTTP error: all five requests
  are sent all the same, and the state is \<open>pending\<close>.
\<close>

lemma scenario_every_call_fails:
  "calls_of (events (handle_pr failing_platform example_config example_pull ())) =
     [Call ''GET'' ''/repos/o/r/commits/0123456789abcdef/check-runs?per_page=100'' None,
      Call ''DELETE'' ''/repos/o/r/issues/7/labels/ci-failing'' None,
      Call ''POST'' ''/repos/o/r/issues/7/labels'' (Some (JObj [(''labels'', JArr [JStr ''needs-review''])])),
      Call ''GET'' ''/repos/o/r/issues/7/comments'' None,
      Call ''POST'' ''/repos/o/r/issues/7/comments''
        (Some (JObj [(''body'', JStr (BOT_COMMENT_MARKER @ nl @
                       status_comment 7 ''0123456789abcdef'' Pending ''needs-review''))]))]"
proof -
  have st: "result (ci_status failing_platform example_config (head_sha example_pull) ()) = Pending"
    by (simp add: ci_status_def http_get_def result_request failing_platform_def fixed_platform_def)
  have stale: "stale_labels (current_labels example_pull) ''needs-review'' = {''ci-failing''}"
    by (auto simp: stale_labels_def current_labels_def example_pull_def CI_LABELS_def
        LABEL_PASSING_def LABEL_FAILING_def LABEL_NEEDS_REVIEW_def)
  have none: "\<And>w. result (bot_comment_id failing_platform example_config 7 w) = None"
    by (simp add: bot_comment_id_def http_get_def result_request failing_platform_def
        fixed_platform_def)
  have up: "\<And>txt w. calls_of (events (upsert_comment failing_platform example_config 7 txt w)) =
     [Call ''GET'' ''/repos/o/r/issues/7/comments'' None,
      Call ''POST'' ''/repos/o/r/issues/7/comments''
        (Some (JObj [(''body'', JStr (BOT_COMMENT_MARKER @ nl @ txt))]))]"
    by (simp add: upsert_comment_def Let_def none http_post_def)
       (simp add: bot_comment_id_def http_get_def example_config_def str_int_def str_nat.simps
          digit_char_def)
  have lab: "\<And>w. calls_of (events (set_ci_label failing_platform example_config 7
                         (current_labels example_pull) ''needs-review'' w)) =
     [Call ''DELETE'' ''/repos/o/r/issues/7/labels/ci-failing'' None,
      Call ''POST'' ''/repos/o/r/issues/7/labels'' (Some (JObj [(''labels'', JArr [JStr ''needs-review''])]))]"
    by (simp add: set_ci_label_calls stale visit_def)
       (simp add: current_labels_def example_pull_def example_config_def str_int_def
          str_nat.simps digit_char_def)
  have cr: "\<And>w. calls_of (events (ci_status failing_platform example_config ''0123456789abcdef'' w)) =
     [Call ''GET'' ''/repos/o/r/commits/0123456789abcdef/check-runs?per_page=100'' None]"
    by (simp add: calls_of_ci_status example_config_def)
  have num: "number example_pull = 7" "head_sha example_pull = ''0123456789abcdef''"
    by (simp_all add: example_pull_def)
  show ?thesis
    using st
    by (simp add: handle_pr_def Let_def calls_of_Cons num label_map_def LABEL_NEEDS_REVIEW_def
        cr lab up)
qed

end
